theory Spec2Isabelle
  imports Complex_Main
begin

section \<open>Vectors, quaternions and poses\<close>

text \<open>
  Tensors of floats are modelled over the reals: the comparisons and the arithmetic of
  \<open>air_env_data.py\<close> are kept, float32 rounding is not modelled.
  A quaternion is stored as (w, x, y, z), the layout of \<open>root_state_w[:, 3:7]\<close>.
\<close>

type_synonym vec3 = "real \<times> real \<times> real"
type_synonym quat = "real \<times> real \<times> real \<times> real"
type_synonym pose = "vec3 \<times> quat"

fun vadd :: "vec3 \<Rightarrow> vec3 \<Rightarrow> vec3" where
  "vadd (a, b, c) (x, y, z) = (a + x, b + y, c + z)"

fun vsub :: "vec3 \<Rightarrow> vec3 \<Rightarrow> vec3" where
  "vsub (a, b, c) (x, y, z) = (a - x, b - y, c - z)"

fun smul :: "vec3 \<Rightarrow> real \<Rightarrow> vec3" where
  "smul (a, b, c) k = (a * k, b * k, c * k)"

fun sdiv :: "vec3 \<Rightarrow> real \<Rightarrow> vec3" where
  "sdiv (a, b, c) k = (a / k, b / k, c / k)"

fun cross :: "vec3 \<Rightarrow> vec3 \<Rightarrow> vec3" where
  "cross (a, b, c) (x, y, z) = (b * z - c * y, c * x - a * z, a * y - b * x)"

section \<open>Configuration and state\<close>

text \<open>
  The constants that \<open>from isaac_env import *\<close> brings in are not part of the file; they
  are the fields of \<open>cfg\<close>, with \<open>has_gui\<close> for \<open>self.sim.has_gui()\<close>. \<open>ee_goals_default\<close> holds the two ranges the code reads,
  \<open>ee_goals_default[0]\<close> (x) and \<open>ee_goals_default[1]\<close> (y), each as (low, high).
\<close>

record cfg =
  num_objs :: nat
  obj_height_limit :: real
  ee_goals_default :: "(real \<times> real) \<times> (real \<times> real)"
  obj_vel_limit :: real
  step_total :: nat
  STATE_MACHINE :: "string \<Rightarrow> int"
  CONTROLLER :: string
  has_gui :: bool
  disable_camera :: bool
  use_sb3 :: bool
  n_multiple_cam :: nat

text \<open>
  One row of \<open>root_state_w\<close>: position (columns 0:3), orientation (3:7) and the six
  velocity components (7:13, linear then angular).
\<close>

record root_state =
  pos :: vec3
  quat :: quat
  lin_vel :: vec3
  ang_vel :: vec3

datatype error =
  RuntimeError | ValueError | IndexError | KeyError | AssertionError | AttributeError
  | UnboundLocalError | TypeError

text \<open>The calls the class makes on its collaborators, in the order it makes them.\<close>

datatype effect =
  WriteJointState "nat list"
  | RobotReset "nat list"
  | ControllerReset "nat list"
  | ResetIdx "nat list"
  | WriteRootState int nat
  | PrintSuccess nat int int real
  | SaveData nat "nat option" "nat option" "nat option" "nat option" "nat option" "nat list"
  | ImWrite nat
  | Visualize nat "vec3 list"

record env =
  num_envs :: nat
  robot_root_state_w :: "root_state list"
  objs_root_state_w :: "root_state list list"
  sm_state :: "int list"
  sm_wait_time :: "real list"
  epi_step_count :: "(int \<times> int) list"
  reward_recorder :: "real list list list"
  reward_buf :: "real list"
  obj_chosen :: "int list"
  grasp_pose :: "pose list"
  obj_reachable :: "bool list list"
  obj_stable :: "bool list list"
  obj_graspable :: "bool list list"
  env_reachable :: "bool list"
  env_reachable_and_stable :: "bool list"
  env_reset_id :: "int list"
  count :: "int option"
  camera_info :: "nat list list"
  camera_data_info :: "nat list list"
  effects :: "effect list"

text \<open>
  The fields \<open>__init__\<close> sets, for \<open>n\<close> worlds: every world starts in state 2 with a zero
  timer, zero counters, a zero ledger of 100 episodes by \<open>step_total\<close> steps and no chosen
  object. The sensed rows are given; the fields that only \<open>update_env_state\<close> creates are
  empty. \<open>count\<close> is the attribute \<open>self.count\<close>, which \<open>recorder\<close> reads and nothing in the
  class assigns: it is \<open>None\<close> until code outside the class sets it. The attribute
  \<open>self.controller\<close> is created only when \<open>CONTROLLER\<close> is not \<open>RMPFLOW\<close>.
\<close>

definition init :: "cfg \<Rightarrow> nat \<Rightarrow> root_state list \<Rightarrow> root_state list list \<Rightarrow> env" where
  "init c n robot objs =
     \<lparr> num_envs = n,
       robot_root_state_w = robot,
       objs_root_state_w = objs,
       sm_state = replicate n 2,
       sm_wait_time = replicate n 0,
       epi_step_count = replicate n (0, 0),
       reward_recorder = replicate n (replicate 100 (replicate (step_total c) 0)),
       reward_buf = replicate n 0,
       obj_chosen = replicate n (- 1),
       grasp_pose = replicate n ((0, 0, 0), (0, 0, 0, 0)),
       obj_reachable = [],
       obj_stable = [],
       obj_graspable = [],
       env_reachable = [],
       env_reachable_and_stable = [],
       env_reset_id = map int [0..<n],
       count = None,
       camera_info = [],
       camera_data_info = [],
       effects = [] \<rparr>"

section \<open>Readiness classification: \<open>update_env_state\<close>\<close>

text \<open>\<open>_get_obj_pos\<close>: the object's position minus the robot root's, for every world.\<close>

definition get_obj_pos :: "env \<Rightarrow> nat \<Rightarrow> vec3 list" where
  "get_obj_pos s id_obj =
     map (\<lambda>e. vsub (pos (objs_root_state_w s ! id_obj ! e)) (pos (robot_root_state_w s ! e)))
       [0..<num_envs s]"

text \<open>\<open>_get_obj_vel\<close>: columns 7: of the object's root state, for every world.\<close>

definition get_obj_vel :: "env \<Rightarrow> nat \<Rightarrow> real list list" where
  "get_obj_vel s id_obj =
     map (\<lambda>e. (case lin_vel (objs_root_state_w s ! id_obj ! e) of (a, b, c) \<Rightarrow>
                case ang_vel (objs_root_state_w s ! id_obj ! e) of (x, y, z) \<Rightarrow>
                  [a, b, c, x, y, z]))
       [0..<num_envs s]"

text \<open>\<open>torch.mean(torch.abs(v), -1)\<close> on one row.\<close>

definition mean_abs :: "real list \<Rightarrow> real" where
  "mean_abs v = sum_list (map abs v) / real (length v)"

text \<open>The tensor \<open>object_pos\<close>, indexed world then object: x, y, z and the mean speed.\<close>

definition object_pos :: "cfg \<Rightarrow> env \<Rightarrow> (real \<times> real \<times> real \<times> real) list list" where
  "object_pos c s =
     map (\<lambda>e. map (\<lambda>id_obj.
            (case get_obj_pos s id_obj ! e of (x, y, z) \<Rightarrow>
               (x, y, z, mean_abs (get_obj_vel s id_obj ! e))))
          [0..<num_objs c])
       [0..<num_envs s]"

definition update_env_state :: "cfg \<Rightarrow> env \<Rightarrow> env" where
  "update_env_state c s =
     (let op = object_pos c s;
          reach = map (map (\<lambda>(x, y, z, m).
                     z < obj_height_limit c \<and> z > - (5 / 100)
                     \<and> x > fst (fst (ee_goals_default c)) \<and> x < snd (fst (ee_goals_default c))
                     \<and> y > fst (snd (ee_goals_default c)) \<and> y < snd (snd (ee_goals_default c)))) op;
          stable0 = map (map (\<lambda>(x, y, z, m). m < obj_vel_limit c)) op;
          stable = map (\<lambda>(ss, rs). map (\<lambda>(st, r). st \<or> \<not> r) (zip ss rs)) (zip stable0 reach);
          env_reach = map (list_ex id) reach;
          grasp = map (\<lambda>(rs, ss). map (\<lambda>(r, st). r \<and> st) (zip rs ss)) (zip reach stable);
          ras0 = map (\<lambda>(ss, r). list_all id ss \<and> r) (zip stable env_reach);
          ras = map (\<lambda>(b, w). b \<and> w > 1) (zip ras0 (sm_wait_time s))
      in s\<lparr> obj_reachable := reach, obj_stable := stable, env_reachable := env_reach,
             obj_graspable := grasp, env_reachable_and_stable := ras \<rparr>)"

text \<open>The shapes the tensors of the class have.\<close>

definition wf_env :: "cfg \<Rightarrow> env \<Rightarrow> bool" where
  "wf_env c s \<longleftrightarrow>
     length (robot_root_state_w s) = num_envs s
     \<and> length (objs_root_state_w s) = num_objs c
     \<and> list_all (\<lambda>ob. length ob = num_envs s) (objs_root_state_w s)
     \<and> length (sm_state s) = num_envs s
     \<and> length (sm_wait_time s) = num_envs s
     \<and> length (epi_step_count s) = num_envs s
     \<and> length (reward_recorder s) = num_envs s
     \<and> list_all (\<lambda>t. length t = 100 \<and> list_all (\<lambda>r. length r = step_total c) t)
          (reward_recorder s)
     \<and> length (reward_buf s) = num_envs s
     \<and> length (obj_chosen s) = num_envs s"

text \<open>The position of object \<open>j\<close> of world \<open>e\<close> relative to the robot root, and its speed.\<close>

definition rel_pos :: "env \<Rightarrow> nat \<Rightarrow> nat \<Rightarrow> vec3" where
  "rel_pos s e j = vsub (pos (objs_root_state_w s ! j ! e)) (pos (robot_root_state_w s ! e))"

definition speed :: "env \<Rightarrow> nat \<Rightarrow> nat \<Rightarrow> real" where
  "speed s e j =
     (case lin_vel (objs_root_state_w s ! j ! e) of (a, b, c) \<Rightarrow>
      case ang_vel (objs_root_state_w s ! j ! e) of (x, y, z) \<Rightarrow>
        (\<bar>a\<bar> + \<bar>b\<bar> + \<bar>c\<bar> + \<bar>x\<bar> + \<bar>y\<bar> + \<bar>z\<bar>) / 6)"


section \<open>Python indexing\<close>

text \<open>
  An index into a sequence of length \<open>n\<close>: negative indices count from the end, anything
  outside \<open>[-n, n)\<close> raises IndexError (here \<open>None\<close>).
\<close>

definition py_index :: "nat \<Rightarrow> int \<Rightarrow> nat option" where
  "py_index n i =
     (if 0 \<le> i \<and> i < int n then Some (nat i)
      else if - int n \<le> i \<and> i < 0 then Some (nat (i + int n))
      else None)"

text \<open>\<open>max(xs)\<close> of a non-empty list: the running maximum is replaced by a larger item only.\<close>

fun py_max_from :: "real \<Rightarrow> real list \<Rightarrow> real" where
  "py_max_from m [] = m"
| "py_max_from m (x # xs) = py_max_from (if x > m then x else m) xs"

text \<open>\<open>xs.index(v)\<close>: the position of the first item equal to \<open>v\<close>; ValueError if there is none.\<close>

fun py_list_index :: "real list \<Rightarrow> real \<Rightarrow> nat option" where
  "py_list_index [] v = None"
| "py_list_index (x # xs) v =
     (if x = v then Some 0 else map_option Suc (py_list_index xs v))"

section \<open>Frame transforms\<close>

text \<open>
  Modelled from the spec: \<open>combine_frame_transforms\<close> is imported from
  \<open>omni.isaac.lab.utils.math\<close> and is not in the file. The spec calls it the standard rigid
  transform composition, rotate then translate: the second position is rotated by the
  first orientation and added to the first position, and the orientations are multiplied
  (Hamilton product); without a second orientation the first one is returned.
\<close>

fun quat_mul :: "quat \<Rightarrow> quat \<Rightarrow> quat" where
  "quat_mul (w1, x1, y1, z1) (w2, x2, y2, z2) =
     (w1 * w2 - x1 * x2 - y1 * y2 - z1 * z2,
      w1 * x2 + x1 * w2 + y1 * z2 - z1 * y2,
      w1 * y2 - x1 * z2 + y1 * w2 + z1 * x2,
      w1 * z2 + x1 * y2 - y1 * x2 + z1 * w2)"

fun quat_apply :: "quat \<Rightarrow> vec3 \<Rightarrow> vec3" where
  "quat_apply (w, x, y, z) v =
     (let t = smul (cross (x, y, z) v) 2
      in vadd (vadd v (smul t w)) (cross (x, y, z) t))"

definition combine_frame_transforms :: "vec3 \<Rightarrow> quat \<Rightarrow> vec3 \<Rightarrow> quat option \<Rightarrow> vec3 \<times> quat" where
  "combine_frame_transforms t01 q01 t12 q12 =
     (vadd t01 (quat_apply q01 t12),
      (case q12 of None \<Rightarrow> q01 | Some q \<Rightarrow> quat_mul q01 q))"

section \<open>Grasp candidates: \<open>get_grasp_poses_from_hdf5\<close>\<close>

text \<open>
  One entry of \<open>grasp_dict["paralleljaw_pregrasp_transform"]\<close>: \<open>grasp[0:3]\<close>, \<open>grasp[3:6]\<close>,
  \<open>grasp[6:9]\<close> and \<open>grasp[9]\<close>.
\<close>

record grasp =
  approach_vec :: vec3
  baseline :: vec3
  contact_pt :: vec3
  width :: real

record grasp_dict =
  paralleljaw_pregrasp_transform :: "grasp list"
  paralleljaw_pregrasp_score :: "real list"

text \<open>
  \<open>_get_obj_pose\<close>: position relative to the robot root, and orientation, of object
  \<open>id_obj\<close> (a Python list index) in world \<open>id_env\<close>.
\<close>

definition get_obj_pose :: "env \<Rightarrow> int \<Rightarrow> nat \<Rightarrow> error + pose" where
  "get_obj_pose s id_obj id_env =
     (if id_env < length (robot_root_state_w s) then
        (case py_index (length (objs_root_state_w s)) id_obj of
           None \<Rightarrow> Inl IndexError
         | Some j \<Rightarrow>
             if id_env < length (objs_root_state_w s ! j) then
               Inr (vsub (pos (objs_root_state_w s ! j ! id_env)) (pos (robot_root_state_w s ! id_env)),
                    quat (objs_root_state_w s ! j ! id_env))
             else Inl IndexError)
      else Inl IndexError)"

text \<open>
  The body of the loop over the candidates, for an object pose already read. \<open>q6d\<close> is the
  orientation that \<open>from_contact_to_6D\<close> and \<open>transformation_matrix_to_pose_vector\<close> (both
  outside the file) give the candidate. The result is the grasp pose together with the
  two contact points and their midpoint in the robot frame, which the code only draws.
\<close>

definition local_pt2 :: "grasp \<Rightarrow> vec3" where
  "local_pt2 g = vadd (sdiv (contact_pt g) 100) (sdiv (smul (baseline g) (width g)) 100)"

definition local_grasp_pos :: "grasp \<Rightarrow> vec3" where
  "local_grasp_pos g = vsub (local_pt2 g) (smul (approach_vec g) (1 / 10))"

definition candidate_geometry :: "(grasp \<Rightarrow> quat) \<Rightarrow> pose \<Rightarrow> grasp \<Rightarrow> pose \<times> vec3 \<times> vec3 \<times> vec3" where
  "candidate_geometry q6d obj_pose_w g =
     (let contact = sdiv (contact_pt g) 100;
          pt2 = local_pt2 g;
          grasp_pos = local_grasp_pos g;
          grasp_pose_w = combine_frame_transforms (fst obj_pose_w) (snd obj_pose_w) grasp_pos (Some (q6d g));
          contact_w = fst (combine_frame_transforms (fst obj_pose_w) (snd obj_pose_w) contact None);
          pt2_w = fst (combine_frame_transforms (fst obj_pose_w) (snd obj_pose_w) pt2 None);
          mid_pt = sdiv (vadd contact_w pt2_w) 2
      in (grasp_pose_w, contact_w, pt2_w, mid_pt))"

definition candidate_pose :: "(grasp \<Rightarrow> quat) \<Rightarrow> pose \<Rightarrow> grasp \<Rightarrow> pose" where
  "candidate_pose q6d obj_pose_w g = fst (candidate_geometry q6d obj_pose_w g)"

text \<open>The loop: the object pose is read anew for every candidate; the first error ends it.\<close>

fun grasp_poses_loop :: "(grasp \<Rightarrow> quat) \<Rightarrow> env \<Rightarrow> nat \<Rightarrow> grasp list \<Rightarrow> error + pose list" where
  "grasp_poses_loop q6d s env_id [] = Inr []"
| "grasp_poses_loop q6d s env_id (g # gs) =
     (if env_id < length (obj_chosen s) then
        (case get_obj_pose s (obj_chosen s ! env_id) env_id of
           Inl e \<Rightarrow> Inl e
         | Inr obj_pose_w \<Rightarrow>
             (case grasp_poses_loop q6d s env_id gs of
                Inl e \<Rightarrow> Inl e
              | Inr ps \<Rightarrow> Inr (candidate_pose q6d obj_pose_w g # ps)))
      else Inl IndexError)"

text \<open>
  The whole function. \<open>torch.stack\<close> of an empty list raises RuntimeError; \<open>max\<close> of an
  empty score list raises ValueError; \<open>self.pc_markers\<close> exists only with a GUI. The state
  returned with an error is the state at the raise.
\<close>

definition get_grasp_poses_from_hdf5 ::
  "cfg \<Rightarrow> (grasp \<Rightarrow> quat) \<Rightarrow> grasp_dict \<Rightarrow> env \<Rightarrow> nat \<Rightarrow> (error + pose) \<times> env" where
  "get_grasp_poses_from_hdf5 c q6d gd s env_id =
     (case grasp_poses_loop q6d s env_id (paralleljaw_pregrasp_transform gd) of
        Inl e \<Rightarrow> (Inl e, s)
      | Inr grasp_poses \<Rightarrow>
          if grasp_poses = [] then (Inl RuntimeError, s)
          else
            (let s1 = s\<lparr>effects := effects s @ [ImWrite env_id]\<rparr>;
                 scores = paralleljaw_pregrasp_score gd
             in if scores = [] then (Inl ValueError, s1)
                else
                  (case py_list_index scores (py_max_from (hd scores) (tl scores)) of
                     None \<Rightarrow> (Inl ValueError, s1)
                   | Some k \<Rightarrow>
                       if k < length grasp_poses then
                         (if has_gui c then
                            (if env_id < num_envs s then
                               (Inr (grasp_poses ! k),
                                s1\<lparr>effects := effects s1 @ [Visualize env_id (map fst grasp_poses)]\<rparr>)
                             else (Inl IndexError, s1))
                          else (Inl AttributeError, s1))
                       else (Inl IndexError, s1))))"

section \<open>Resets: \<open>_reset_robot\<close> and \<open>_summerize_and_reset\<close>\<close>

text \<open>
  \<open>_reset_robot\<close> writes the initial joint state of the given worlds to the simulation and
  resets the robot and then the controller for them. These are calls on collaborators;
  the class's own fields are not assigned. With \<open>CONTROLLER\<close> set to \<open>RMPFLOW\<close> there is no
  \<open>self.controller\<close>, and the last call raises AttributeError after the first two.
\<close>

definition reset_robot :: "cfg \<Rightarrow> nat list \<Rightarrow> env \<Rightarrow> error option \<times> env" where
  "reset_robot c robot_reset_id s =
     (let s1 = s\<lparr>effects := effects s @
                  [WriteJointState robot_reset_id, RobotReset robot_reset_id]\<rparr>
      in if CONTROLLER c = ''RMPFLOW'' then (Some AttributeError, s1)
         else (None, s1\<lparr>effects := effects s1 @ [ControllerReset robot_reset_id]\<rparr>))"

text \<open>
  \<open>_reset_idx\<close> is inherited from \<open>ManagerBasedRLEnv\<close>, which knows none of the fields this
  class adds: it is the request \<open>ResetIdx\<close> to the simulation.
\<close>

definition reset_idx :: "nat list \<Rightarrow> env \<Rightarrow> env" where
  "reset_idx env_ids s = s\<lparr>effects := effects s @ [ResetIdx env_ids]\<rparr>"

definition init_id :: "cfg \<Rightarrow> env \<Rightarrow> nat list" where
  "init_id c s = filter (\<lambda>i. sm_state s ! i = STATE_MACHINE c ''init'') [0..<num_envs s]"

definition init_env_id :: "cfg \<Rightarrow> env \<Rightarrow> nat list" where
  "init_env_id c s = filter (\<lambda>i. sm_state s ! i = STATE_MACHINE c ''init_env'') [0..<num_envs s]"

text \<open>Both id lists are read first; an error in \<open>_reset_robot\<close> ends the call.\<close>

definition summerize_and_reset :: "cfg \<Rightarrow> env \<Rightarrow> error option \<times> env" where
  "summerize_and_reset c s =
     (case reset_robot c (init_id c s) s of
        (Some e, s') \<Rightarrow> (Some e, s')
      | (None, s') \<Rightarrow> (None, reset_idx (init_env_id c s) s'))"

text \<open>The worlds a request to a collaborator names.\<close>

fun effect_worlds :: "effect \<Rightarrow> nat set" where
  "effect_worlds (WriteJointState ids) = set ids"
| "effect_worlds (RobotReset ids) = set ids"
| "effect_worlds (ControllerReset ids) = set ids"
| "effect_worlds (ResetIdx ids) = set ids"
| "effect_worlds (WriteRootState obj i) = {i}"
| "effect_worlds (PrintSuccess i e st r) = {i}"
| "effect_worlds (SaveData i rgbs pcds depths normals instances labels) = {i}"
| "effect_worlds (ImWrite i) = {i}"
| "effect_worlds (Visualize i ps) = {i}"

text \<open>What a call added to the trace of requests.\<close>

definition emitted :: "env \<Rightarrow> env \<Rightarrow> effect list" where
  "emitted s s' = drop (length (effects s)) (effects s')"

section \<open>The reward ledger: \<open>_record_reward\<close>\<close>

text \<open>
  One pass of the loop body, for world \<open>i\<close>. \<open>env_success\<close> is the truth value of
  \<open>reward_buf[i]\<close> (non-zero); \<open>judge_reward[i]\<close> is read only when it is true. The ledger
  cell is indexed by the world's two counters, with Python's index rules; the object is
  looked up in \<open>scene.rigid_objects\<close> under the key \<open>obj_k\<close>, \<open>k\<close> the chosen object, and the
  keys are those of the \<open>num_objs\<close> objects. The order of the assignments is the source's:
  ledger, relocation, print, state, chosen object.
\<close>

definition record_world :: "cfg \<Rightarrow> bool list \<Rightarrow> nat \<Rightarrow> env \<Rightarrow> error option \<times> env" where
  "record_world c judge_reward i s =
     (if reward_buf s ! i \<noteq> 0 then
        (if i < length judge_reward then
           (if judge_reward ! i then
              (if i < length (epi_step_count s) \<and> i < length (reward_recorder s) then
                 (case py_index (length (reward_recorder s ! i)) (fst (epi_step_count s ! i)) of
                    None \<Rightarrow> (Some IndexError, s)
                  | Some e \<Rightarrow>
                      (case py_index (length (reward_recorder s ! i ! e)) (snd (epi_step_count s ! i)) of
                         None \<Rightarrow> (Some IndexError, s)
                       | Some st \<Rightarrow>
                           (let row = (reward_recorder s ! i ! e)
                                        [st := reward_recorder s ! i ! e ! st + reward_buf s ! i];
                                s1 = s\<lparr>reward_recorder :=
                                         (reward_recorder s)[i := (reward_recorder s ! i)[e := row]]\<rparr>
                            in if i < length (obj_chosen s1) then
                                 (if 0 \<le> obj_chosen s1 ! i \<and> obj_chosen s1 ! i < int (num_objs c) then
                                    (let s2 = s1\<lparr>effects := effects s1 @
                                                 [WriteRootState (obj_chosen s1 ! i) i,
                                                  PrintSuccess i (fst (epi_step_count s1 ! i))
                                                    (snd (epi_step_count s1 ! i)) (sum_list row)]\<rparr>
                                     in if i < length (sm_state s2) then
                                          (None,
                                           s2\<lparr>sm_state := (sm_state s2)[i := STATE_MACHINE c ''init''],
                                               obj_chosen := (obj_chosen s2)[i := - 1]\<rparr>)
                                        else (Some IndexError, s2))
                                  else (Some KeyError, s1))
                               else (Some IndexError, s1))))
               else (Some IndexError, s))
            else (None, s))
         else (Some IndexError, s))
      else (None, s))"

fun record_loop :: "cfg \<Rightarrow> bool list \<Rightarrow> nat list \<Rightarrow> env \<Rightarrow> error option \<times> env" where
  "record_loop c judge_reward [] s = (None, s)"
| "record_loop c judge_reward (i # is) s =
     (case record_world c judge_reward i s of
        (Some e, s') \<Rightarrow> (Some e, s')
      | (None, s') \<Rightarrow> record_loop c judge_reward is s')"

definition record_reward :: "cfg \<Rightarrow> bool list \<Rightarrow> env \<Rightarrow> error option \<times> env" where
  "record_reward c judge_reward s = record_loop c judge_reward [0..<length (reward_buf s)] s"

section \<open>Export: \<open>recorder\<close>\<close>

text \<open>
  A row of the table: environment id, episode number, step number, grasp success. The
  last column holds what the comprehension over \<open>grasp_tensor\<close> yields, a whole row of the
  world's ledger. The file is \<open>None\<close> while it does not exist, else the rows it holds;
  reading it back gives the rows written. In \<open>len(environment_ids) == 0 or self.count == 0\<close>
  the attribute is read only when the list is not empty, and reading it raises
  AttributeError while it is not set.
\<close>

type_synonym row = "int \<times> int \<times> nat \<times> real list"

fun gather :: "'a list \<Rightarrow> int list \<Rightarrow> error + 'a list" where
  "gather xs [] = Inr []"
| "gather xs (i # is) =
     (case py_index (length xs) i of
        None \<Rightarrow> Inl IndexError
      | Some k \<Rightarrow> (case gather xs is of Inl e \<Rightarrow> Inl e | Inr ys \<Rightarrow> Inr (xs ! k # ys)))"

definition data_frame :: "int list \<Rightarrow> int list \<Rightarrow> real list list list \<Rightarrow> error + row list" where
  "data_frame environment_ids episode_numbers grasp_tensor =
     (let env_col = concat (map (\<lambda>(i, g). replicate (length g) i) (zip environment_ids grasp_tensor));
          epi_col = concat (map (\<lambda>(e, g). replicate (length g) e) (zip episode_numbers grasp_tensor));
          step_col = concat (map (\<lambda>episode. [0..<length episode]) grasp_tensor);
          succ_col = concat grasp_tensor
      in if length env_col = length epi_col \<and> length epi_col = length step_col
            \<and> length step_col = length succ_col
         then Inr (zip env_col (zip epi_col (zip step_col succ_col)))
         else Inl ValueError)"

definition recorder :: "env \<Rightarrow> row list option \<Rightarrow> error option \<times> row list option" where
  "recorder s file =
     (case gather (epi_step_count s) (env_reset_id s) of
        Inl e \<Rightarrow> (Some e, file)
      | Inr counters \<Rightarrow>
          (case gather (reward_recorder s) (env_reset_id s) of
             Inl e \<Rightarrow> (Some e, file)
           | Inr grasp_tensor \<Rightarrow>
               (let environment_ids = env_reset_id s;
                    episode_numbers = map fst counters
                in if length environment_ids = 0 then (None, file)
                   else if count s = None then (Some AttributeError, file)
                   else if count s = Some 0 then (None, file)
                   else if \<not> (length environment_ids = length episode_numbers
                               \<and> length episode_numbers = length grasp_tensor)
                   then (Some ValueError, file)
                   else
                     (case data_frame environment_ids episode_numbers grasp_tensor of
                        Inl e \<Rightarrow> (Some e, file)
                      | Inr df_new_data \<Rightarrow>
                          (case file of
                             Some df_existing \<Rightarrow> (None, Some (df_existing @ df_new_data))
                           | None \<Rightarrow> (None, Some df_new_data))))))"

text \<open>
  World \<open>i\<close> is left alone between two states: its ledger, its chosen object and its state
  are the same, the rewards, the counters and the sizes of the tensors are the same, and
  the requests added name other worlds only.
\<close>

definition world_frame :: "nat \<Rightarrow> env \<Rightarrow> env \<Rightarrow> bool" where
  "world_frame i s s' \<longleftrightarrow>
     reward_recorder s' ! i = reward_recorder s ! i
     \<and> obj_chosen s' ! i = obj_chosen s ! i
     \<and> sm_state s' ! i = sm_state s ! i
     \<and> reward_buf s' = reward_buf s
     \<and> epi_step_count s' = epi_step_count s
     \<and> length (reward_recorder s') = length (reward_recorder s)
     \<and> length (obj_chosen s') = length (obj_chosen s)
     \<and> length (sm_state s') = length (sm_state s)
     \<and> (\<exists>new. effects s' = effects s @ new \<and> list_all (\<lambda>x. i \<notin> effect_worlds x) new)"

text \<open>The shape of the ledger: for every world, 100 episodes of \<open>step_total\<close> steps.\<close>

definition ledger_shape :: "cfg \<Rightarrow> real list list list \<Rightarrow> bool" where
  "ledger_shape c rr \<longleftrightarrow>
     list_all (\<lambda>t. length t = 100 \<and> list_all (\<lambda>r. length r = step_total c) t) rr"

section \<open>The outer loop: \<open>step\<close>\<close>

text \<open>
  One pass of the loop body. The state-machine kernel \<open>infer_state_machine_data\<close> and the
  controller and simulation step (\<open>super().step\<close>) are outside the file: they are the
  parameters \<open>sm_kernel\<close> and \<open>sim_step\<close>. After the kernel the body calls
  \<open>self.controller.set_command\<close>: with \<open>CONTROLLER\<close> set to \<open>RMPFLOW\<close> there is no
  \<open>self.controller\<close> and the pass raises AttributeError there.
\<close>

definition step_body :: "cfg \<Rightarrow> (env \<Rightarrow> env) \<Rightarrow> (env \<Rightarrow> env) \<Rightarrow> env \<Rightarrow> error option \<times> env" where
  "step_body c sm_kernel sim_step s =
     (let s1 = sm_kernel (update_env_state c s)
      in if CONTROLLER c = ''RMPFLOW'' then (Some AttributeError, s1)
         else summerize_and_reset c (sim_step s1))"

text \<open>\<open>n\<close> passes of the body in a row; the first error ends them.\<close>

fun passes :: "cfg \<Rightarrow> (env \<Rightarrow> env) \<Rightarrow> (env \<Rightarrow> env) \<Rightarrow> nat \<Rightarrow> env \<Rightarrow> error option \<times> env" where
  "passes c sm_kernel sim_step 0 s = (None, s)"
| "passes c sm_kernel sim_step (Suc n) s =
     (case step_body c sm_kernel sim_step s of
        (Some e, s') \<Rightarrow> (Some e, s')
      | (None, s') \<Rightarrow> passes c sm_kernel sim_step n s')"

definition policy_inference_criteria :: "cfg \<Rightarrow> env \<Rightarrow> bool list" where
  "policy_inference_criteria c s = map (\<lambda>st. st = STATE_MACHINE c ''choose_object'') (sm_state s)"

text \<open>\<open>t.any()\<close> on a tensor of booleans; false on the empty tensor.\<close>

definition tensor_any :: "bool list \<Rightarrow> bool" where
  "tensor_any bs = list_ex (\<lambda>b. b) bs"

text \<open>
  The while loop: it runs until \<open>policy_inference_criteria.any()\<close>. It ends with an error
  and the state at the raise (\<open>Inl\<close>), or with the state, the criteria and a flag that
  tells whether the body ran, that is whether \<open>obs_buf\<close> is bound (\<open>Inr\<close>). A loop that
  never ends is \<open>None\<close>.
\<close>

partial_function (option) step_loop ::
  "cfg \<Rightarrow> (env \<Rightarrow> env) \<Rightarrow> (env \<Rightarrow> env) \<Rightarrow> env \<Rightarrow> bool list \<Rightarrow> bool
     \<Rightarrow> (error \<times> env + env \<times> bool list \<times> bool) option" where
  "step_loop c sm_kernel sim_step s criteria body_ran =
     (if tensor_any criteria then Some (Inr (s, criteria, body_ran))
      else (case step_body c sm_kernel sim_step s of
              (Some e, s') \<Rightarrow> Some (Inl (e, s'))
            | (None, s') \<Rightarrow>
                step_loop c sm_kernel sim_step s' (policy_inference_criteria c s') True))"

text \<open>
  What a loop that ends without error returns: the state, the criteria and the flag it
  was entered with when the criteria already hold; else the state after the first pass
  \<open>n + 1\<close> of the body whose criteria hold, every pass having ended without error and no
  earlier pass having met the criteria.
\<close>

definition loop_post ::
  "cfg \<Rightarrow> (env \<Rightarrow> env) \<Rightarrow> (env \<Rightarrow> env) \<Rightarrow> env \<Rightarrow> bool list \<Rightarrow> bool
     \<Rightarrow> error \<times> env + env \<times> bool list \<times> bool \<Rightarrow> bool" where
  "loop_post c k sim s criteria r y \<longleftrightarrow>
     (case y of
        Inl err \<Rightarrow> \<not> tensor_any criteria
      | Inr z \<Rightarrow>
          (tensor_any criteria \<and> z = (s, criteria, r))
          \<or> (\<not> tensor_any criteria
             \<and> (\<exists>n t. passes c k sim (Suc n) s = (None, t)
                  \<and> z = (t, policy_inference_criteria c t, True)
                  \<and> tensor_any (policy_inference_criteria c t)
                  \<and> (\<forall>m<n. \<forall>t'. passes c k sim (Suc m) s = (None, t')
                        \<longrightarrow> \<not> tensor_any (policy_inference_criteria c t')))))"

text \<open>World \<open>w\<close> is in the state \<open>STATE_MACHINE["choose_object"]\<close>.\<close>

definition in_choose_object :: "cfg \<Rightarrow> env \<Rightarrow> nat \<Rightarrow> bool" where
  "in_choose_object c s w \<longleftrightarrow>
     w < length (sm_state s) \<and> sm_state s ! w = STATE_MACHINE c ''choose_object''"

text \<open>
  \<open>step\<close>: the grasp pose is stored, the loop runs, the camera info is read
  (\<open>self.camera\<close> exists unless cameras are disabled; it is read once per camera) and the
  observation is returned, with the criteria unless \<open>use_sb3\<close> is set.
\<close>

definition step ::
  "cfg \<Rightarrow> (env \<Rightarrow> env) \<Rightarrow> (env \<Rightarrow> env) \<Rightarrow> env \<Rightarrow> pose list \<Rightarrow> bool list
     \<Rightarrow> ((error + bool list option) \<times> env) option" where
  "step c sm_kernel sim_step s grasp_pose_in criteria0 =
     (case step_loop c sm_kernel sim_step (s\<lparr>grasp_pose := grasp_pose_in\<rparr>) criteria0 False of
        None \<Rightarrow> None
      | Some (Inl (e, s')) \<Rightarrow> Some (Inl e, s')
      | Some (Inr (s', criteria, body_ran)) \<Rightarrow>
          Some (if disable_camera c \<and> 0 < n_multiple_cam c then (Inl AttributeError, s')
                else
                  (let s'' = s'\<lparr>camera_info := camera_data_info s'\<rparr>
                   in if body_ran then (Inr (if use_sb3 c then None else Some criteria), s'')
                      else (Inl UnboundLocalError, s''))))"

section \<open>Sensor snapshots: \<open>get_grasp_pose_demo\<close>\<close>

text \<open>
  \<open>obs_buf["policy"]\<close> is a dictionary from channel names to a value that is \<open>None\<close> or holds
  one frame per world; a frame is opaque here. \<open>save_data\<close> writes the snapshot of one
  world to disk: it is the request \<open>SaveData\<close>.
\<close>

type_synonym data_cam = "string \<rightharpoonup> nat list option"

definition frame_of :: "nat list option \<Rightarrow> nat \<Rightarrow> error + nat option" where
  "frame_of channel env_id =
     (case channel of
        None \<Rightarrow> Inr None
      | Some frames \<Rightarrow> if env_id < length frames then Inr (Some (frames ! env_id)) else Inl IndexError)"

fun id_to_labels_of :: "nat list list \<Rightarrow> nat \<Rightarrow> nat list \<Rightarrow> error + nat list" where
  "id_to_labels_of info env_id [] = Inr []"
| "id_to_labels_of info env_id (cam_id # cams) =
     (if cam_id < length info \<and> env_id < length (info ! cam_id) then
        (case id_to_labels_of info env_id cams of
           Inl e \<Rightarrow> Inl e
         | Inr ls \<Rightarrow> Inr (info ! cam_id ! env_id # ls))
      else Inl IndexError)"

definition demo_world ::
  "cfg \<Rightarrow> data_cam \<Rightarrow> nat list option \<Rightarrow> nat list option \<Rightarrow> nat list option \<Rightarrow> nat list option
     \<Rightarrow> nat \<Rightarrow> env \<Rightarrow> error option \<times> env" where
  "demo_world c dc pcds_all instances_all depths_all normals_all env_id s =
     (case frame_of pcds_all env_id of Inl e \<Rightarrow> (Some e, s) | Inr pcds \<Rightarrow>
      case frame_of instances_all env_id of Inl e \<Rightarrow> (Some e, s) | Inr instances \<Rightarrow>
      case frame_of depths_all env_id of Inl e \<Rightarrow> (Some e, s) | Inr depths \<Rightarrow>
      case frame_of normals_all env_id of Inl e \<Rightarrow> (Some e, s) | Inr normals \<Rightarrow>
      case id_to_labels_of (camera_info s) env_id [0..<n_multiple_cam c] of
        Inl e \<Rightarrow> (Some e, s)
      | Inr id_to_labels \<Rightarrow>
          (case (case dc ''rgb'' of None \<Rightarrow> Inr None
                 | Some None \<Rightarrow> Inl TypeError
                 | Some (Some frames) \<Rightarrow> frame_of (Some frames) env_id) of
             Inl e \<Rightarrow> (Some e, s)
           | Inr rgbs \<Rightarrow>
               (None, s\<lparr>effects := effects s @
                          [SaveData env_id rgbs pcds depths normals instances id_to_labels]\<rparr>)))"

fun demo_loop ::
  "cfg \<Rightarrow> data_cam \<Rightarrow> nat list option \<Rightarrow> nat list option \<Rightarrow> nat list option \<Rightarrow> nat list option
     \<Rightarrow> nat list \<Rightarrow> env \<Rightarrow> error option \<times> env" where
  "demo_loop c dc pcds_all instances_all depths_all normals_all [] s = (None, s)"
| "demo_loop c dc pcds_all instances_all depths_all normals_all (env_id # ids) s =
     (case demo_world c dc pcds_all instances_all depths_all normals_all env_id s of
        (Some e, s') \<Rightarrow> (Some e, s')
      | (None, s') \<Rightarrow> demo_loop c dc pcds_all instances_all depths_all normals_all ids s')"

definition get_grasp_pose_demo :: "cfg \<Rightarrow> nat list \<Rightarrow> data_cam \<Rightarrow> env \<Rightarrow> (error + pose list) \<times> env" where
  "get_grasp_pose_demo c ids dc s =
     (let instances_all_env = (case dc ''instance_segmentation_fast'' of None \<Rightarrow> None | Some v \<Rightarrow> v)
      in case dc ''distance_to_image_plane'' of
           None \<Rightarrow> (Inl AssertionError, s)
         | Some depths_all_env \<Rightarrow>
             (case dc ''pcd'' of
                None \<Rightarrow> (Inl KeyError, s)
              | Some pcds_all_env \<Rightarrow>
                  (case dc ''normals'' of
                     None \<Rightarrow> (Inl KeyError, s)
                   | Some normals_all_env \<Rightarrow>
                       (case demo_loop c dc pcds_all_env instances_all_env depths_all_env
                               normals_all_env ids s of
                          (Some e, s') \<Rightarrow> (Inl e, s')
                        | (None, s') \<Rightarrow> (Inr (grasp_pose s'), s')))))"

section \<open>Concrete configurations and states\<close>

definition sm_example :: "string \<Rightarrow> int" where
  "sm_example k =
     (if k = ''init'' then 0 else if k = ''init_env'' then 1 else if k = ''start'' then 2
      else if k = ''choose_object'' then 3 else if k = ''approach'' then 4
      else if k = ''grasp'' then 5 else 6)"

definition cfg_example :: cfg where
  "cfg_example =
     \<lparr> num_objs = 2, obj_height_limit = 1 / 2, ee_goals_default = ((- 1, 1), (- 1, 1)),
       obj_vel_limit = 1 / 10, step_total = 3, STATE_MACHINE = sm_example,
       CONTROLLER = ''IK'', has_gui = True, disable_camera = False, use_sb3 = False,
       n_multiple_cam = 1 \<rparr>"

definition at_rest :: "vec3 \<Rightarrow> root_state" where
  "at_rest p = \<lparr> pos = p, quat = (1, 0, 0, 0), lin_vel = (0, 0, 0), ang_vel = (0, 0, 0) \<rparr>"

text \<open>
  One world with the robot at the origin and two objects at rest, one at height 0.1 and
  one at height 2.0, two seconds into its state.
\<close>

definition env_ready_example :: env where
  "env_ready_example =
     (init cfg_example 1 [at_rest (0, 0, 0)] [[at_rest (0, 0, 1 / 10)], [at_rest (0, 0, 2)]])
       \<lparr>sm_wait_time := [2]\<rparr>"

text \<open>
  The pre-grasp position as the spec words it: a step back from the midpoint of the two
  contact points along the approach vector, in the object's frame.
\<close>

definition midpoint_pregrasp_pos :: "grasp \<Rightarrow> vec3" where
  "midpoint_pregrasp_pos g =
     vsub (sdiv (vadd (sdiv (contact_pt g) 100) (local_pt2 g)) 2) (smul (approach_vec g) (1 / 10))"

text \<open>
  A candidate with its contact point at the origin, baseline along x, separation 2 and
  approach along z; a library of two candidates; one world whose chosen object 0 sits at
  (1, 0, 0), turned by half a turn about z.
\<close>

definition grasp_example :: grasp where
  "grasp_example =
     \<lparr> approach_vec = (0, 0, 1), baseline = (1, 0, 0), contact_pt = (0, 0, 0), width = 2 \<rparr>"

definition q6d_example :: "grasp \<Rightarrow> quat" where
  "q6d_example g = (1, 0, 0, 0)"

definition grasp_dict_example :: grasp_dict where
  "grasp_dict_example =
     \<lparr> paralleljaw_pregrasp_transform = [grasp_example, grasp_example\<lparr>width := 4\<rparr>],
       paralleljaw_pregrasp_score = [1 / 2, 1 / 2] \<rparr>"

definition grasp_dict_empty :: grasp_dict where
  "grasp_dict_empty = \<lparr> paralleljaw_pregrasp_transform = [], paralleljaw_pregrasp_score = [] \<rparr>"

definition env_grasp_example :: env where
  "env_grasp_example =
     (init cfg_example 1 [at_rest (0, 0, 0)]
        [[\<lparr> pos = (1, 0, 0), quat = (0, 0, 0, 1), lin_vel = (0, 0, 0), ang_vel = (0, 0, 0) \<rparr>],
         [at_rest (0, 0, 2)]])
       \<lparr>sm_state := [3], obj_chosen := [0]\<rparr>"

text \<open>
  Modelled from the spec: the state-machine kernel \<open>infer_state_machine_data\<close> is not in
  the file. This one takes the spec's edge START (2) to CHOOSE_OBJECT (3) for a world that
  is ready and leaves every other world in its state.
\<close>

definition kernel_example :: "env \<Rightarrow> env" where
  "kernel_example s =
     s\<lparr>sm_state := map (\<lambda>(st, ready). if st = 2 \<and> ready then 3 else st)
                      (zip (sm_state s) (env_reachable_and_stable s))\<rparr>"

text \<open>
  Two worlds in START, each with an object at rest at height 0.1 and one at height 2.0;
  world 0 has waited two seconds, world 1 none.
\<close>

definition env_two_example :: env where
  "env_two_example =
     (init cfg_example 2 [at_rest (0, 0, 0), at_rest (0, 0, 0)]
        [[at_rest (0, 0, 1 / 10), at_rest (0, 0, 1 / 10)], [at_rest (0, 0, 2), at_rest (0, 0, 2)]])
       \<lparr>sm_wait_time := [2, 0]\<rparr>"

text \<open>Three worlds: world 0 in INIT (0), world 1 in START (2), world 2 in INIT_ENV (1).\<close>

definition env_reset_example :: env where
  "env_reset_example =
     (init cfg_example 3 [at_rest (0, 0, 0), at_rest (0, 0, 0), at_rest (0, 0, 0)]
        [[at_rest (0, 0, 0), at_rest (0, 0, 0), at_rest (0, 0, 0)],
         [at_rest (0, 0, 0), at_rest (0, 0, 0), at_rest (0, 0, 0)]])
       \<lparr>sm_state := [0, 2, 1]\<rparr>"

text \<open>
  Two worlds with camera info for one camera, and two observation dictionaries: one with
  every channel, one without the depth channel.
\<close>

definition env_demo_example :: env where
  "env_demo_example =
     (init cfg_example 2 [at_rest (0, 0, 0), at_rest (0, 0, 0)]
        [[at_rest (0, 0, 0), at_rest (0, 0, 0)], [at_rest (0, 0, 0), at_rest (0, 0, 0)]])
       \<lparr>camera_info := [[7, 8]]\<rparr>"

definition data_cam_full :: data_cam where
  "data_cam_full =
     [''rgb'' \<mapsto> Some [10, 11], ''pcd'' \<mapsto> Some [20, 21], ''normals'' \<mapsto> Some [30, 31],
      ''distance_to_image_plane'' \<mapsto> Some [40, 41]]"

definition data_cam_no_depth :: data_cam where
  "data_cam_no_depth =
     [''rgb'' \<mapsto> Some [10, 11], ''pcd'' \<mapsto> Some [20, 21], ''normals'' \<mapsto> Some [30, 31]]"

text \<open>
  One world as \<open>__init__\<close> leaves it, and the same world after code outside the class has
  set the attribute \<open>count\<close> to 1.
\<close>

definition env_fresh_example :: env where
  "env_fresh_example =
     init cfg_example 1 [at_rest (0, 0, 0)] [[at_rest (0, 0, 0)], [at_rest (0, 0, 0)]]"

definition env_export_example :: env where
  "env_export_example = env_fresh_example\<lparr>count := Some 1\<rparr>"

text \<open>
  Two worlds in state 6 at step 2 and step 1 of episode 0: world 0 holds object 1 and has
  reward 0.5, world 1 holds object 0 and has reward 0.
\<close>

definition env_reward_example :: env where
  "env_reward_example =
     (init cfg_example 2 [at_rest (0, 0, 0), at_rest (0, 0, 0)]
        [[at_rest (0, 0, 0), at_rest (0, 0, 0)], [at_rest (0, 0, 0), at_rest (0, 0, 0)]])
       \<lparr>sm_state := [6, 6], epi_step_count := [(0, 2), (0, 1)], reward_buf := [1 / 2, 0],
         obj_chosen := [1, 0]\<rparr>"

text \<open>The same two worlds, with world 0 at episode index 100.\<close>

definition env_overflow_example :: env where
  "env_overflow_example = env_reward_example\<lparr>epi_step_count := [(100, 0), (0, 1)]\<rparr>"

text \<open>The example configuration without a GUI.\<close>

definition cfg_headless_example :: cfg where
  "cfg_headless_example = cfg_example\<lparr>has_gui := False\<rparr>"

section \<open>Readiness: what \<open>update_env_state\<close> computes\<close>

lemma object_pos_nth:
  assumes "e < num_envs s" and "j < num_objs c"
  shows "object_pos c s ! e ! j =
           (case rel_pos s e j of (x, y, z) \<Rightarrow> (x, y, z, speed s e j))"
  using assms
  by (simp add: object_pos_def get_obj_pos_def get_obj_vel_def rel_pos_def speed_def mean_abs_def
      split: prod.splits)

lemma object_pos_length:
  "length (object_pos c s) = num_envs s"
  "e < num_envs s \<Longrightarrow> length (object_pos c s ! e) = num_objs c"
  by (simp_all add: object_pos_def)

lemma obj_reachable_nth:
  assumes "e < num_envs s" and "j < num_objs c"
  shows "obj_reachable (update_env_state c s) ! e ! j \<longleftrightarrow>
           (case rel_pos s e j of (x, y, z) \<Rightarrow>
              z < obj_height_limit c \<and> z > - (5 / 100)
              \<and> x > fst (fst (ee_goals_default c)) \<and> x < snd (fst (ee_goals_default c))
              \<and> y > fst (snd (ee_goals_default c)) \<and> y < snd (snd (ee_goals_default c)))"
  using assms
  by (simp add: update_env_state_def Let_def object_pos_length object_pos_nth split: prod.splits)

lemma obj_reachable_length:
  "length (obj_reachable (update_env_state c s)) = num_envs s"
  "e < num_envs s \<Longrightarrow> length (obj_reachable (update_env_state c s) ! e) = num_objs c"
  by (simp_all add: update_env_state_def Let_def object_pos_length)

lemma obj_stable_nth:
  assumes "e < num_envs s" and "j < num_objs c"
  shows "obj_stable (update_env_state c s) ! e ! j \<longleftrightarrow>
           (speed s e j < obj_vel_limit c \<or> \<not> obj_reachable (update_env_state c s) ! e ! j)"
  using assms
  by (simp add: update_env_state_def Let_def object_pos_length object_pos_nth split: prod.splits)

lemma obj_stable_length:
  "length (obj_stable (update_env_state c s)) = num_envs s"
  "e < num_envs s \<Longrightarrow> length (obj_stable (update_env_state c s) ! e) = num_objs c"
  by (simp_all add: update_env_state_def Let_def object_pos_length)

lemma env_ready_nth:
  assumes "e < num_envs s" and "length (sm_wait_time s) = num_envs s"
  shows "env_reachable_and_stable (update_env_state c s) ! e \<longleftrightarrow>
           list_all id (obj_stable (update_env_state c s) ! e)
           \<and> list_ex id (obj_reachable (update_env_state c s) ! e)
           \<and> sm_wait_time s ! e > 1"
  using assms
  by (simp add: update_env_state_def Let_def object_pos_length)

text \<open>
  C1. Every tick, for every world \<open>e\<close> and object \<open>j\<close>: the object is reachable iff its
  height is below the height limit, above the lower tolerance (-0.05) and its x and y lie
  strictly inside the workspace ranges; it is stable iff the mean of the absolute values
  of its six velocity components is below the velocity limit or it is not reachable; and
  the world is ready iff every object is stable, some object is reachable and the world's
  wait time exceeds the minimum settle time (1.0).
\<close>

theorem update_env_state_classification:
  assumes "wf_env c s" and "e < num_envs s"
  shows "(\<forall>j<num_objs c.
           (obj_reachable (update_env_state c s) ! e ! j \<longleftrightarrow>
              (case rel_pos s e j of (x, y, z) \<Rightarrow>
                 z < obj_height_limit c \<and> z > - (5 / 100)
                 \<and> fst (fst (ee_goals_default c)) < x \<and> x < snd (fst (ee_goals_default c))
                 \<and> fst (snd (ee_goals_default c)) < y \<and> y < snd (snd (ee_goals_default c))))
           \<and> (obj_stable (update_env_state c s) ! e ! j \<longleftrightarrow>
                speed s e j < obj_vel_limit c
                \<or> \<not> obj_reachable (update_env_state c s) ! e ! j))
         \<and> (env_reachable_and_stable (update_env_state c s) ! e \<longleftrightarrow>
              (\<forall>j<num_objs c. obj_stable (update_env_state c s) ! e ! j)
              \<and> (\<exists>j<num_objs c. obj_reachable (update_env_state c s) ! e ! j)
              \<and> sm_wait_time s ! e > 1)"
proof (intro conjI)
  show "\<forall>j<num_objs c.
           (obj_reachable (update_env_state c s) ! e ! j \<longleftrightarrow>
              (case rel_pos s e j of (x, y, z) \<Rightarrow>
                 z < obj_height_limit c \<and> z > - (5 / 100)
                 \<and> fst (fst (ee_goals_default c)) < x \<and> x < snd (fst (ee_goals_default c))
                 \<and> fst (snd (ee_goals_default c)) < y \<and> y < snd (snd (ee_goals_default c))))
           \<and> (obj_stable (update_env_state c s) ! e ! j \<longleftrightarrow>
                speed s e j < obj_vel_limit c
                \<or> \<not> obj_reachable (update_env_state c s) ! e ! j)"
    using assms(2) obj_reachable_nth [of e s _ c] obj_stable_nth [of e s _ c] by simp
next
  have len: "length (sm_wait_time s) = num_envs s"
    using assms(1) by (simp add: wf_env_def)
  have a: "list_all id (obj_stable (update_env_state c s) ! e) \<longleftrightarrow>
             (\<forall>j<num_objs c. obj_stable (update_env_state c s) ! e ! j)"
    using assms(2) by (simp add: list_all_length obj_stable_length)
  have b: "list_ex id (obj_reachable (update_env_state c s) ! e) \<longleftrightarrow>
             (\<exists>j<num_objs c. obj_reachable (update_env_state c s) ! e ! j)"
    using assms(2) by (simp add: list_ex_length obj_reachable_length)
  show "env_reachable_and_stable (update_env_state c s) ! e \<longleftrightarrow>
           (\<forall>j<num_objs c. obj_stable (update_env_state c s) ! e ! j)
           \<and> (\<exists>j<num_objs c. obj_reachable (update_env_state c s) ! e ! j)
           \<and> sm_wait_time s ! e > 1"
    using env_ready_nth [OF assms(2) len, of c] a b by simp
qed

lemma env_ready_example_wf: "wf_env cfg_example env_ready_example"
  by (simp add: wf_env_def env_ready_example_def init_def cfg_example_def list_all_iff)

lemma env_ready_example_rel_pos:
  "rel_pos env_ready_example 0 0 = (0, 0, 1 / 10)"
  "rel_pos env_ready_example 0 (Suc 0) = (0, 0, 2)"
  by (simp_all add: rel_pos_def env_ready_example_def init_def at_rest_def)

lemma env_ready_example_speed:
  "speed env_ready_example 0 0 = 0"
  "speed env_ready_example 0 (Suc 0) = 0"
  by (simp_all add: speed_def env_ready_example_def init_def at_rest_def)

theorem update_env_state_classification_witness:
  "wf_env cfg_example env_ready_example \<and> 0 < num_envs env_ready_example
   \<and> obj_reachable (update_env_state cfg_example env_ready_example) ! 0 ! 0
   \<and> obj_stable (update_env_state cfg_example env_ready_example) ! 0 ! 0
   \<and> \<not> obj_reachable (update_env_state cfg_example env_ready_example) ! 0 ! 1
   \<and> obj_stable (update_env_state cfg_example env_ready_example) ! 0 ! 1
   \<and> env_reachable_and_stable (update_env_state cfg_example env_ready_example) ! 0"
proof -
  have lt: "0 < num_envs env_ready_example"
    by (simp add: env_ready_example_def init_def)
  have n: "num_objs cfg_example = Suc (Suc 0)"
    by (simp add: cfg_example_def)
  have w: "sm_wait_time env_ready_example ! 0 = 2"
    by (simp add: env_ready_example_def init_def)
  note th = update_env_state_classification [OF env_ready_example_wf lt]
  have r0: "obj_reachable (update_env_state cfg_example env_ready_example) ! 0 ! 0"
    using th by (simp add: n env_ready_example_rel_pos cfg_example_def)
  have r1: "\<not> obj_reachable (update_env_state cfg_example env_ready_example) ! 0 ! 1"
    using th by (simp add: n env_ready_example_rel_pos cfg_example_def)
  have s0: "obj_stable (update_env_state cfg_example env_ready_example) ! 0 ! 0"
    using th by (simp add: n env_ready_example_speed cfg_example_def)
  have s1: "obj_stable (update_env_state cfg_example env_ready_example) ! 0 ! 1"
    using th r1 by (simp add: n)
  have "env_reachable_and_stable (update_env_state cfg_example env_ready_example) ! 0"
    using th r0 s0 s1 w by (auto simp add: n less_Suc_eq)
  with env_ready_example_wf lt r0 r1 s0 s1 show ?thesis by simp
qed

section \<open>Grasp selection: what \<open>get_grasp_poses_from_hdf5\<close> computes\<close>

lemma grasp_poses_loop_ok:
  assumes "env_id < length (obj_chosen s)"
    and "get_obj_pose s (obj_chosen s ! env_id) env_id = Inr obj_pose_w"
  shows "grasp_poses_loop q6d s env_id gs = Inr (map (candidate_pose q6d obj_pose_w) gs)"
  using assms by (induction gs) simp_all

lemma grasp_poses_loop_Inr:
  assumes "grasp_poses_loop q6d s env_id gs = Inr ps" and "gs \<noteq> []"
  shows "env_id < length (obj_chosen s)
         \<and> (\<exists>obj_pose_w. get_obj_pose s (obj_chosen s ! env_id) env_id = Inr obj_pose_w)"
  using assms by (cases gs) (auto split: if_splits sum.splits)

lemma candidate_pose_eq:
  "candidate_pose q6d (p, q) g =
     (vadd p (quat_apply q (local_grasp_pos g)), quat_mul q (q6d g))"
  by (simp add: candidate_pose_def candidate_geometry_def combine_frame_transforms_def Let_def)

lemma py_max_from_ge: "m \<le> py_max_from m xs"
proof (induction xs arbitrary: m)
  case Nil
  show ?case by simp
next
  case (Cons x xs)
  have "(if x > m then x else m) \<le> py_max_from (if x > m then x else m) xs"
    by (rule Cons.IH)
  then show ?case by (simp split: if_splits)
qed

lemma py_max_from_upper: "x \<in> set xs \<Longrightarrow> x \<le> py_max_from m xs"
proof (induction xs arbitrary: m)
  case Nil
  then show ?case by simp
next
  case (Cons y ys)
  show ?case
  proof (cases "x = y")
    case True
    have "(if y > m then y else m) \<le> py_max_from (if y > m then y else m) ys"
      by (rule py_max_from_ge)
    with True show ?thesis by (simp split: if_splits)
  next
    case False
    with Cons.prems have "x \<in> set ys" by simp
    then show ?thesis using Cons.IH by simp
  qed
qed

lemma py_max_from_mem: "py_max_from m xs = m \<or> py_max_from m xs \<in> set xs"
proof (induction xs arbitrary: m)
  case Nil
  show ?case by simp
next
  case (Cons y ys)
  from Cons.IH [of "if y > m then y else m"] show ?case
    by (auto split: if_splits)
qed

lemma py_list_index_Some:
  "py_list_index xs v = Some k \<Longrightarrow> k < length xs \<and> xs ! k = v \<and> (\<forall>j<k. xs ! j \<noteq> v)"
proof (induction xs arbitrary: k)
  case Nil
  then show ?case by simp
next
  case (Cons x xs)
  show ?case
  proof (cases "x = v")
    case True
    with Cons.prems show ?thesis by simp
  next
    case False
    with Cons.prems obtain k' where k': "py_list_index xs v = Some k'" "k = Suc k'"
      by auto
    from Cons.IH [OF k'(1)] False k'(2) show ?thesis
      by (auto simp: less_Suc_eq_0_disj)
  qed
qed

lemma py_list_index_mem: "v \<in> set xs \<Longrightarrow> \<exists>k. py_list_index xs v = Some k"
  by (induction xs) auto

lemma py_max_index:
  assumes "scores \<noteq> []"
  shows "\<exists>k. py_list_index scores (py_max_from (hd scores) (tl scores)) = Some k
             \<and> k < length scores
             \<and> (\<forall>j<length scores. scores ! j \<le> scores ! k)
             \<and> (\<forall>j<k. scores ! j < scores ! k)"
proof -
  let ?m = "py_max_from (hd scores) (tl scores)"
  from assms obtain x xs where sc: "scores = x # xs" by (cases scores) auto
  have mem: "?m \<in> set scores"
    using py_max_from_mem [of x xs] by (auto simp: sc)
  have upper: "\<And>y. y \<in> set scores \<Longrightarrow> y \<le> ?m"
    using py_max_from_ge [of x xs] py_max_from_upper [of _ xs x] by (auto simp: sc)
  from py_list_index_mem [OF mem] obtain k where k: "py_list_index scores ?m = Some k" ..
  from py_list_index_Some [OF k]
  have kl: "k < length scores" and kv: "scores ! k = ?m" and kf: "\<forall>j<k. scores ! j \<noteq> ?m"
    by simp_all
  have a: "\<forall>j<length scores. scores ! j \<le> scores ! k"
    using upper kv by simp
  have b: "\<forall>j<k. scores ! j < scores ! k"
  proof (intro allI impI)
    fix j assume j: "j < k"
    with kl have "scores ! j \<le> ?m" using upper by simp
    moreover from kf j have "scores ! j \<noteq> ?m" by simp
    ultimately show "scores ! j < scores ! k" using kv by simp
  qed
  from k kl a b show ?thesis by blast
qed

lemma get_obj_pose_effects [simp]:
  "get_obj_pose (s\<lparr>effects := e\<rparr>) id_obj id_env = get_obj_pose s id_obj id_env"
  by (simp add: get_obj_pose_def split: option.split)

lemma grasp_poses_loop_effects [simp]:
  "grasp_poses_loop q6d (s\<lparr>effects := e\<rparr>) env_id gs = grasp_poses_loop q6d s env_id gs"
  by (induction gs) (simp_all split: sum.split)

lemma get_grasp_poses_result:
  assumes "paralleljaw_pregrasp_transform gd \<noteq> []"
    and "length (paralleljaw_pregrasp_score gd) = length (paralleljaw_pregrasp_transform gd)"
    and "env_id < length (obj_chosen s)"
    and "get_obj_pose s (obj_chosen s ! env_id) env_id = Inr obj_pose_w"
    and "has_gui c" and "env_id < num_envs s"
    and "py_list_index (paralleljaw_pregrasp_score gd)
           (py_max_from (hd (paralleljaw_pregrasp_score gd)) (tl (paralleljaw_pregrasp_score gd)))
         = Some k"
    and "k < length (paralleljaw_pregrasp_score gd)"
  shows "get_grasp_poses_from_hdf5 c q6d gd s env_id =
           (Inr (candidate_pose q6d obj_pose_w (paralleljaw_pregrasp_transform gd ! k)),
            s\<lparr>effects := effects s @
                 [ImWrite env_id,
                  Visualize env_id
                    (map fst (map (candidate_pose q6d obj_pose_w) (paralleljaw_pregrasp_transform gd)))]\<rparr>)"
proof -
  have sc: "paralleljaw_pregrasp_score gd \<noteq> []"
    using assms(1,2) by auto
  show ?thesis
    using assms sc
    by (simp add: get_grasp_poses_from_hdf5_def grasp_poses_loop_ok [OF assms(3,4)] Let_def)
qed

text \<open>
  C2 (amended). For every grasp candidate the loop processes: the second contact point is
  the contact point plus the baseline scaled by the separation parameter (both converted
  by the factor 1/100); the pre-grasp position is a step back of 0.1 along the approach
  vector from that second contact point (not from the midpoint of the two contact
  points); and the local pose is composed with the chosen object's current pose by rigid
  transform composition: the position is rotated by the object's orientation and added
  to the object's position, the orientations are multiplied.
\<close>

theorem grasp_poses_loop_candidate:
  assumes "grasp_poses_loop q6d s env_id gs = Inr ps" and "k < length gs"
  shows "\<exists>p q. get_obj_pose s (obj_chosen s ! env_id) env_id = Inr (p, q)
           \<and> length ps = length gs
           \<and> local_pt2 (gs ! k) =
               vadd (sdiv (contact_pt (gs ! k)) 100)
                 (sdiv (smul (baseline (gs ! k)) (width (gs ! k))) 100)
           \<and> ps ! k =
               (vadd p (quat_apply q
                  (vsub (local_pt2 (gs ! k)) (smul (approach_vec (gs ! k)) (1 / 10)))),
                quat_mul q (q6d (gs ! k)))"
proof -
  from assms(2) have ne: "gs \<noteq> []" by auto
  from grasp_poses_loop_Inr [OF assms(1) ne]
  obtain obj_pose_w where lt: "env_id < length (obj_chosen s)"
    and op: "get_obj_pose s (obj_chosen s ! env_id) env_id = Inr obj_pose_w"
    by blast
  obtain p q where pq: "obj_pose_w = (p, q)" by (cases obj_pose_w)
  have ps: "ps = map (candidate_pose q6d obj_pose_w) gs"
    using grasp_poses_loop_ok [OF lt op, of q6d gs] assms(1) by simp
  have "ps ! k = (vadd p (quat_apply q (local_grasp_pos (gs ! k))), quat_mul q (q6d (gs ! k)))"
    using assms(2) by (simp add: ps pq candidate_pose_eq)
  then show ?thesis
    using op pq ps by (simp add: local_grasp_pos_def local_pt2_def)
qed

lemma env_grasp_example_obj_pose:
  "get_obj_pose env_grasp_example (obj_chosen env_grasp_example ! 0) 0
     = Inr ((1, 0, 0), (0, 0, 0, 1))"
  by (simp add: get_obj_pose_def env_grasp_example_def init_def at_rest_def py_index_def)

lemma env_grasp_example_loop:
  "grasp_poses_loop q6d_example env_grasp_example 0 [grasp_example]
     = Inr [((98 / 100, 0, - (1 / 10)), (0, 0, 0, 1))]"
proof -
  have lt: "0 < length (obj_chosen env_grasp_example)"
    by (simp add: env_grasp_example_def)
  show ?thesis
    unfolding grasp_poses_loop_ok [OF lt env_grasp_example_obj_pose]
    by (simp add: candidate_pose_eq local_grasp_pos_def local_pt2_def grasp_example_def
        q6d_example_def Let_def)
qed

theorem grasp_poses_loop_candidate_witness:
  "grasp_poses_loop q6d_example env_grasp_example 0 [grasp_example]
     = Inr [((98 / 100, 0, - (1 / 10)), (0, 0, 0, 1))]
   \<and> (0::nat) < length [grasp_example]
   \<and> get_obj_pose env_grasp_example (obj_chosen env_grasp_example ! 0) 0
       = Inr ((1, 0, 0), (0, 0, 0, 1))
   \<and> local_pt2 grasp_example = (2 / 100, 0, 0)
   \<and> vadd (1, 0, 0) (quat_apply (0, 0, 0, 1)
        (vsub (local_pt2 grasp_example) (smul (approach_vec grasp_example) (1 / 10))))
       = (98 / 100, 0, - (1 / 10))
   \<and> vadd (1, 0, 0) (vsub (local_pt2 grasp_example) (smul (approach_vec grasp_example) (1 / 10)))
       = (102 / 100, 0, - (1 / 10))"
proof -
  have k: "(0::nat) < length [grasp_example]" by simp
  from grasp_poses_loop_candidate [OF env_grasp_example_loop k]
  have "vadd (1, 0, 0) (quat_apply (0, 0, 0, 1)
          (vsub (local_pt2 grasp_example) (smul (approach_vec grasp_example) (1 / 10))))
        = (98 / 100, 0, - (1 / 10))"
    by (simp add: env_grasp_example_obj_pose)
  moreover have "local_pt2 grasp_example = (2 / 100, 0, 0)"
    by (simp add: local_pt2_def grasp_example_def)
  moreover have "vadd (1, 0, 0)
        (vsub (local_pt2 grasp_example) (smul (approach_vec grasp_example) (1 / 10)))
       = (102 / 100, 0, - (1 / 10))"
    by (simp add: local_pt2_def grasp_example_def)
  ultimately show ?thesis
    using env_grasp_example_loop env_grasp_example_obj_pose by simp
qed

text \<open>
  C2 as stated fails: for the example candidate, with the object at (1, 0, 0) turned by
  half a turn about z, the pose the loop builds is not the composition of the object's
  pose with the step back from the midpoint of the two contact points.
\<close>

theorem pregrasp_from_midpoint_counterexample:
  "grasp_poses_loop q6d_example env_grasp_example 0 [grasp_example]
     = Inr [((98 / 100, 0, - (1 / 10)), (0, 0, 0, 1))]
   \<and> vadd (1, 0, 0) (quat_apply (0, 0, 0, 1) (midpoint_pregrasp_pos grasp_example))
       = (99 / 100, 0, - (1 / 10))
   \<and> fst (((98 / 100, 0, - (1 / 10)), (0, 0, 0, 1)) :: pose)
       \<noteq> vadd (1, 0, 0) (quat_apply (0, 0, 0, 1) (midpoint_pregrasp_pos grasp_example))"
proof -
  have m: "vadd (1, 0, 0) (quat_apply (0, 0, 0, 1) (midpoint_pregrasp_pos grasp_example))
             = (99 / 100, 0, - (1 / 10))"
    by (simp add: midpoint_pregrasp_pos_def local_pt2_def grasp_example_def Let_def)
  show ?thesis
    unfolding m using env_grasp_example_loop by simp
qed

lemma grasp_selection_with_gui:
  assumes "paralleljaw_pregrasp_transform gd \<noteq> []"
    and "length (paralleljaw_pregrasp_score gd) = length (paralleljaw_pregrasp_transform gd)"
    and "env_id < length (obj_chosen s)"
    and "get_obj_pose s (obj_chosen s ! env_id) env_id = Inr obj_pose_w"
    and "has_gui c" and "env_id < num_envs s"
  shows "\<exists>k<length (paralleljaw_pregrasp_transform gd).
           fst (get_grasp_poses_from_hdf5 c q6d gd s env_id)
             = Inr (candidate_pose q6d obj_pose_w (paralleljaw_pregrasp_transform gd ! k))
           \<and> (\<forall>j<length (paralleljaw_pregrasp_score gd).
                 paralleljaw_pregrasp_score gd ! j \<le> paralleljaw_pregrasp_score gd ! k)
           \<and> (\<forall>j<k. paralleljaw_pregrasp_score gd ! j < paralleljaw_pregrasp_score gd ! k)"
proof -
  let ?sc = "paralleljaw_pregrasp_score gd"
  have sc: "?sc \<noteq> []" using assms(1,2) by auto
  from py_max_index [OF sc] obtain k
    where k: "py_list_index ?sc (py_max_from (hd ?sc) (tl ?sc)) = Some k"
      and kl: "k < length ?sc"
      and mx: "\<forall>j<length ?sc. ?sc ! j \<le> ?sc ! k"
      and fs: "\<forall>j<k. ?sc ! j < ?sc ! k"
    by blast
  note r1 = get_grasp_poses_result [OF assms k kl, of q6d]
  have "fst (get_grasp_poses_from_hdf5 c q6d gd s env_id)
      = Inr (candidate_pose q6d obj_pose_w (paralleljaw_pregrasp_transform gd ! k))"
    by (simp add: r1)
  then show ?thesis
    using kl mx fs assms(2) by auto
qed

lemma grasp_dict_example_index:
  "py_list_index (paralleljaw_pregrasp_score grasp_dict_example)
     (py_max_from (hd (paralleljaw_pregrasp_score grasp_dict_example))
        (tl (paralleljaw_pregrasp_score grasp_dict_example))) = Some 0"
  by (simp add: grasp_dict_example_def)

lemma grasp_example_with_gui:
  "fst (get_grasp_poses_from_hdf5 cfg_example q6d_example grasp_dict_example env_grasp_example 0)
     = Inr ((98 / 100, 0, - (1 / 10)), (0, 0, 0, 1))"
proof -
  have h1: "paralleljaw_pregrasp_transform grasp_dict_example \<noteq> []"
    by (simp add: grasp_dict_example_def)
  have h2: "length (paralleljaw_pregrasp_score grasp_dict_example)
              = length (paralleljaw_pregrasp_transform grasp_dict_example)"
    by (simp add: grasp_dict_example_def)
  have h3: "0 < length (obj_chosen env_grasp_example)"
    by (simp add: env_grasp_example_def)
  have h5: "has_gui cfg_example" by (simp add: cfg_example_def)
  have h6: "0 < num_envs env_grasp_example" by (simp add: env_grasp_example_def init_def)
  have h8: "0 < length (paralleljaw_pregrasp_score grasp_dict_example)"
    by (simp add: grasp_dict_example_def)
  have "candidate_pose q6d_example ((1, 0, 0), (0, 0, 0, 1))
          (paralleljaw_pregrasp_transform grasp_dict_example ! 0)
        = ((98 / 100, 0, - (1 / 10)), (0, 0, 0, 1))"
    by (simp add: candidate_pose_eq local_grasp_pos_def local_pt2_def grasp_example_def
        grasp_dict_example_def q6d_example_def Let_def)
  then show ?thesis
    by (simp add: get_grasp_poses_result
        [OF h1 h2 h3 env_grasp_example_obj_pose h5 h6 grasp_dict_example_index h8])
qed

lemma grasp_example_headless:
  "get_grasp_poses_from_hdf5 cfg_headless_example q6d_example grasp_dict_example env_grasp_example 0
     = (Inl AttributeError, env_grasp_example\<lparr>effects := [ImWrite 0]\<rparr>)"
proof -
  have lt: "0 < length (obj_chosen env_grasp_example)"
    by (simp add: env_grasp_example_def)
  have l: "grasp_poses_loop q6d_example env_grasp_example 0
             (paralleljaw_pregrasp_transform grasp_dict_example)
           = Inr (map (candidate_pose q6d_example ((1, 0, 0), (0, 0, 0, 1)))
                    (paralleljaw_pregrasp_transform grasp_dict_example))"
    by (rule grasp_poses_loop_ok [OF lt env_grasp_example_obj_pose])
  have e: "effects env_grasp_example = []"
    by (simp add: env_grasp_example_def init_def)
  show ?thesis
    by (simp add: get_grasp_poses_from_hdf5_def l Let_def grasp_dict_example_index e)
       (simp add: grasp_dict_example_def cfg_headless_example_def)
qed

text \<open>
  C3, in a run without a GUI. The selection computes the poses and the index of the
  first maximal score, then reads \<open>self.pc_markers\<close>, which \<open>__init__\<close> creates only with a
  GUI: whatever the candidates, the call returns no pose.
\<close>

theorem grasp_selection_headless:
  assumes "\<not> has_gui c"
  shows "\<forall>p. fst (get_grasp_poses_from_hdf5 c q6d gd s env_id) \<noteq> Inr p"
  using assms
  by (auto simp add: get_grasp_poses_from_hdf5_def Let_def split: sum.splits option.splits if_splits)

theorem grasp_selection_headless_witness:
  "\<not> has_gui cfg_headless_example
   \<and> fst (get_grasp_poses_from_hdf5 cfg_headless_example q6d_example grasp_dict_example
            env_grasp_example 0) = Inl AttributeError
   \<and> fst (get_grasp_poses_from_hdf5 cfg_headless_example q6d_example grasp_dict_example
            env_grasp_example 0) \<noteq> Inr ((98 / 100, 0, - (1 / 10)), (0, 0, 0, 1))
   \<and> fst (get_grasp_poses_from_hdf5 cfg_example q6d_example grasp_dict_example
            env_grasp_example 0) = Inr ((98 / 100, 0, - (1 / 10)), (0, 0, 0, 1))"
proof -
  have h: "\<not> has_gui cfg_headless_example"
    by (simp add: cfg_headless_example_def cfg_example_def)
  from grasp_selection_headless [OF h, of q6d_example grasp_dict_example env_grasp_example 0]
  have n: "fst (get_grasp_poses_from_hdf5 cfg_headless_example q6d_example grasp_dict_example
            env_grasp_example 0) \<noteq> Inr ((98 / 100, 0, - (1 / 10)), (0, 0, 0, 1))"
    by blast
  have a: "fst (get_grasp_poses_from_hdf5 cfg_headless_example q6d_example grasp_dict_example
            env_grasp_example 0) = Inl AttributeError"
    by (simp add: grasp_example_headless)
  from h n a grasp_example_with_gui show ?thesis by blast
qed

text \<open>
  C4 (amended). When the library holds no candidate for the chosen object, the selection
  fails with the RuntimeError that stacking an empty list raises, and the state is left
  as it was: no world is moved to another state and no object is excluded.
\<close>

theorem no_candidates_runtime_error:
  assumes "paralleljaw_pregrasp_transform gd = []"
  shows "get_grasp_poses_from_hdf5 c q6d gd s env_id = (Inl RuntimeError, s)"
  using assms by (simp add: get_grasp_poses_from_hdf5_def)

theorem no_candidates_runtime_error_witness:
  "paralleljaw_pregrasp_transform grasp_dict_empty = []
   \<and> get_grasp_poses_from_hdf5 cfg_example q6d_example grasp_dict_empty env_grasp_example 0
       = (Inl RuntimeError, env_grasp_example)"
proof -
  have h: "paralleljaw_pregrasp_transform grasp_dict_empty = []"
    by (simp add: grasp_dict_empty_def)
  from no_candidates_runtime_error [OF h] h show ?thesis by simp
qed

text \<open>
  C4 as stated fails: with no candidate for the chosen object of a world in state 3
  (CHOOSE_OBJECT in the example configuration, START being 2), the call raises and the
  world is still in state 3 with the same chosen object.
\<close>

theorem no_candidates_counterexample:
  "fst (get_grasp_poses_from_hdf5 cfg_example q6d_example grasp_dict_empty env_grasp_example 0)
     = Inl RuntimeError
   \<and> sm_state (snd (get_grasp_poses_from_hdf5 cfg_example q6d_example grasp_dict_empty
                      env_grasp_example 0)) ! 0
       \<noteq> STATE_MACHINE cfg_example ''start''
   \<and> obj_chosen (snd (get_grasp_poses_from_hdf5 cfg_example q6d_example grasp_dict_empty
                        env_grasp_example 0)) ! 0 = 0"
  by (simp add: get_grasp_poses_from_hdf5_def grasp_dict_empty_def env_grasp_example_def
      cfg_example_def sm_example_def)

section \<open>The outer loop: when \<open>step\<close> returns\<close>

lemma passes_Suc_None:
  "passes c k sim (Suc n) s = (None, t) \<longleftrightarrow>
     (\<exists>s1. step_body c k sim s = (None, s1) \<and> passes c k sim n s1 = (None, t))"
  by (auto split: prod.splits option.splits)

lemma step_loop_run:
  assumes "\<not> tensor_any criteria"
    and "passes c k sim (Suc n) s = (None, t)"
    and "tensor_any (policy_inference_criteria c t)"
    and "\<forall>m<n. \<forall>t'. passes c k sim (Suc m) s = (None, t')
           \<longrightarrow> \<not> tensor_any (policy_inference_criteria c t')"
  shows "step_loop c k sim s criteria r = Some (Inr (t, policy_inference_criteria c t, True))"
  using assms
proof (induction n arbitrary: s criteria r)
  case 0
  from 0(2) have b: "step_body c k sim s = (None, t)"
    by (simp split: prod.splits option.splits)
  have "step_loop c k sim s criteria r
          = step_loop c k sim t (policy_inference_criteria c t) True"
    using 0(1) b by (subst step_loop.simps) simp
  also have "\<dots> = Some (Inr (t, policy_inference_criteria c t, True))"
    using 0(3) by (subst step_loop.simps) simp
  finally show ?case .
next
  case (Suc n)
  from Suc.prems(2) obtain s1 where b: "step_body c k sim s = (None, s1)"
    and p: "passes c k sim (Suc n) s1 = (None, t)"
    unfolding passes_Suc_None [of c k sim "Suc n"] by blast
  have p1: "passes c k sim (Suc 0) s = (None, s1)" using b by simp
  have first: "\<not> tensor_any (policy_inference_criteria c s1)"
    using Suc.prems(4) p1 by blast
  have rest: "\<forall>m<n. \<forall>t'. passes c k sim (Suc m) s1 = (None, t')
           \<longrightarrow> \<not> tensor_any (policy_inference_criteria c t')"
  proof (intro allI impI)
    fix m t' assume m: "m < n" and q: "passes c k sim (Suc m) s1 = (None, t')"
    have "passes c k sim (Suc (Suc m)) s = (None, t')"
      unfolding passes_Suc_None [of c k sim "Suc m"] using b q by blast
    moreover from m have "Suc m < Suc n" by simp
    ultimately show "\<not> tensor_any (policy_inference_criteria c t')"
      using Suc.prems(4) by blast
  qed
  have "step_loop c k sim s criteria r
          = step_loop c k sim s1 (policy_inference_criteria c s1) True"
    using Suc.prems(1) b by (subst step_loop.simps) simp
  also have "\<dots> = Some (Inr (t, policy_inference_criteria c t, True))"
    by (rule Suc.IH [OF first p Suc.prems(3) rest])
  finally show ?case .
qed

lemma loop_post_step:
  assumes "\<not> tensor_any criteria"
    and "step_body c k sim s = (None, s1)"
    and "loop_post c k sim s1 (policy_inference_criteria c s1) True y"
  shows "loop_post c k sim s criteria r y"
proof (cases y)
  case (Inl err)
  with assms(1) show ?thesis by (simp add: loop_post_def)
next
  case (Inr z)
  from assms(3) Inr
  have "(tensor_any (policy_inference_criteria c s1)
           \<and> z = (s1, policy_inference_criteria c s1, True))
        \<or> (\<not> tensor_any (policy_inference_criteria c s1)
           \<and> (\<exists>n t. passes c k sim (Suc n) s1 = (None, t)
                \<and> z = (t, policy_inference_criteria c t, True)
                \<and> tensor_any (policy_inference_criteria c t)
                \<and> (\<forall>m<n. \<forall>t'. passes c k sim (Suc m) s1 = (None, t')
                      \<longrightarrow> \<not> tensor_any (policy_inference_criteria c t'))))"
    by (simp add: loop_post_def)
  then have "\<exists>n t. passes c k sim (Suc n) s = (None, t)
                \<and> z = (t, policy_inference_criteria c t, True)
                \<and> tensor_any (policy_inference_criteria c t)
                \<and> (\<forall>m<n. \<forall>t'. passes c k sim (Suc m) s = (None, t')
                      \<longrightarrow> \<not> tensor_any (policy_inference_criteria c t'))"
  proof
    assume h: "tensor_any (policy_inference_criteria c s1)
           \<and> z = (s1, policy_inference_criteria c s1, True)"
    have "passes c k sim (Suc 0) s = (None, s1)" using assms(2) by simp
    moreover have "\<forall>m<(0::nat). \<forall>t'. passes c k sim (Suc m) s = (None, t')
                      \<longrightarrow> \<not> tensor_any (policy_inference_criteria c t')" by simp
    ultimately show ?thesis using h by blast
  next
    assume "\<not> tensor_any (policy_inference_criteria c s1)
           \<and> (\<exists>n t. passes c k sim (Suc n) s1 = (None, t)
                \<and> z = (t, policy_inference_criteria c t, True)
                \<and> tensor_any (policy_inference_criteria c t)
                \<and> (\<forall>m<n. \<forall>t'. passes c k sim (Suc m) s1 = (None, t')
                      \<longrightarrow> \<not> tensor_any (policy_inference_criteria c t')))"
    then obtain n t where f: "\<not> tensor_any (policy_inference_criteria c s1)"
      and p: "passes c k sim (Suc n) s1 = (None, t)"
      and z: "z = (t, policy_inference_criteria c t, True)"
      and e: "tensor_any (policy_inference_criteria c t)"
      and a: "\<forall>m<n. \<forall>t'. passes c k sim (Suc m) s1 = (None, t')
                      \<longrightarrow> \<not> tensor_any (policy_inference_criteria c t')"
      by blast
    have p': "passes c k sim (Suc (Suc n)) s = (None, t)"
      unfolding passes_Suc_None [of c k sim "Suc n"] using assms(2) p by blast
    have a': "\<forall>m<Suc n. \<forall>t'. passes c k sim (Suc m) s = (None, t')
                      \<longrightarrow> \<not> tensor_any (policy_inference_criteria c t')"
    proof (intro allI impI)
      fix m t' assume m: "m < Suc n" and q: "passes c k sim (Suc m) s = (None, t')"
      show "\<not> tensor_any (policy_inference_criteria c t')"
      proof (cases m)
        case 0
        with q assms(2) have "t' = s1" by simp
        with f show ?thesis by simp
      next
        case (Suc m')
        with q assms(2) have "passes c k sim (Suc m') s1 = (None, t')"
          unfolding passes_Suc_None [of c k sim "Suc m'"] by auto
        moreover from Suc m have "m' < n" by simp
        ultimately show ?thesis using a by blast
      qed
    qed
    from p' z e a' show ?thesis by blast
  qed
  with assms(1) Inr show ?thesis by (simp add: loop_post_def)
qed

lemma step_loop_Some:
  assumes "step_loop c k sim s criteria r = Some y"
  shows "loop_post c k sim s criteria r y"
proof (rule step_loop.raw_induct [where P = loop_post, OF _ assms])
  fix f c k sim s criteria r y
  assume ih: "\<And>k sim s criteria r b y. f k sim s criteria r b = Some y \<Longrightarrow> loop_post k sim s criteria r b y"
    and eq: "(if tensor_any criteria then Some (Inr (s, criteria, r))
              else case step_body c k sim s of
                     (None, s') \<Rightarrow> f c k sim s' (policy_inference_criteria c s') True
                   | (Some e, s') \<Rightarrow> Some (Inl (e, s'))) = Some y"
  show "loop_post c k sim s criteria r y"
  proof (cases "tensor_any criteria")
    case True
    with eq have "y = Inr (s, criteria, r)" by simp
    with True show ?thesis by (simp add: loop_post_def)
  next
    case False
    obtain eo s1 where b: "step_body c k sim s = (eo, s1)" by (cases "step_body c k sim s")
    show ?thesis
    proof (cases eo)
      case None
      with eq False b have "f c k sim s1 (policy_inference_criteria c s1) True = Some y"
        by simp
      from ih [OF this] show ?thesis
        using loop_post_step [OF False] b None by blast
    next
      case (Some e)
      with eq False b have "y = Inl (e, s1)" by simp
      with False show ?thesis by (simp add: loop_post_def)
    qed
  qed
qed

lemma tensor_any_criteria:
  "tensor_any (policy_inference_criteria c s) \<longleftrightarrow> (\<exists>w. in_choose_object c s w)"
  by (auto simp add: tensor_any_def policy_inference_criteria_def list_ex_length in_choose_object_def)

lemma step_loop_normal_iff:
  "step_loop c k sim s criteria0 r = Some (Inr z) \<longleftrightarrow>
     (tensor_any criteria0 \<and> z = (s, criteria0, r))
     \<or> (\<not> tensor_any criteria0
        \<and> (\<exists>n t. passes c k sim (Suc n) s = (None, t)
             \<and> z = (t, policy_inference_criteria c t, True)
             \<and> tensor_any (policy_inference_criteria c t)
             \<and> (\<forall>m<n. \<forall>t'. passes c k sim (Suc m) s = (None, t')
                   \<longrightarrow> \<not> tensor_any (policy_inference_criteria c t'))))"
proof
  assume "step_loop c k sim s criteria0 r = Some (Inr z)"
  from step_loop_Some [OF this]
  show "(tensor_any criteria0 \<and> z = (s, criteria0, r))
     \<or> (\<not> tensor_any criteria0
        \<and> (\<exists>n t. passes c k sim (Suc n) s = (None, t)
             \<and> z = (t, policy_inference_criteria c t, True)
             \<and> tensor_any (policy_inference_criteria c t)
             \<and> (\<forall>m<n. \<forall>t'. passes c k sim (Suc m) s = (None, t')
                   \<longrightarrow> \<not> tensor_any (policy_inference_criteria c t'))))"
    by (simp add: loop_post_def)
next
  assume "(tensor_any criteria0 \<and> z = (s, criteria0, r))
     \<or> (\<not> tensor_any criteria0
        \<and> (\<exists>n t. passes c k sim (Suc n) s = (None, t)
             \<and> z = (t, policy_inference_criteria c t, True)
             \<and> tensor_any (policy_inference_criteria c t)
             \<and> (\<forall>m<n. \<forall>t'. passes c k sim (Suc m) s = (None, t')
                   \<longrightarrow> \<not> tensor_any (policy_inference_criteria c t'))))"
  then show "step_loop c k sim s criteria0 r = Some (Inr z)"
  proof
    assume "tensor_any criteria0 \<and> z = (s, criteria0, r)"
    then show ?thesis by (subst step_loop.simps) simp
  next
    assume "\<not> tensor_any criteria0
        \<and> (\<exists>n t. passes c k sim (Suc n) s = (None, t)
             \<and> z = (t, policy_inference_criteria c t, True)
             \<and> tensor_any (policy_inference_criteria c t)
             \<and> (\<forall>m<n. \<forall>t'. passes c k sim (Suc m) s = (None, t')
                   \<longrightarrow> \<not> tensor_any (policy_inference_criteria c t')))"
    then obtain n t where a: "\<not> tensor_any criteria0"
      and p: "passes c k sim (Suc n) s = (None, t)"
      and z: "z = (t, policy_inference_criteria c t, True)"
      and e: "tensor_any (policy_inference_criteria c t)"
      and q: "\<forall>m<n. \<forall>t'. passes c k sim (Suc m) s = (None, t')
                   \<longrightarrow> \<not> tensor_any (policy_inference_criteria c t')"
      by blast
    from step_loop_run [OF a p e q] z show ?thesis by simp
  qed
qed

lemma step_normal_iff:
  "step c k sim s gp criteria0 = Some (Inr res, s'') \<longleftrightarrow>
     (\<exists>t criteria. step_loop c k sim (s\<lparr>grasp_pose := gp\<rparr>) criteria0 False
                      = Some (Inr (t, criteria, True))
        \<and> \<not> (disable_camera c \<and> 0 < n_multiple_cam c)
        \<and> s'' = t\<lparr>camera_info := camera_data_info t\<rparr>
        \<and> res = (if use_sb3 c then None else Some criteria))"
proof (cases "step_loop c k sim (s\<lparr>grasp_pose := gp\<rparr>) criteria0 False")
  case None
  then show ?thesis by (simp add: step_def)
next
  case (Some y)
  show ?thesis
  proof (cases y)
    case (Inl err)
    with Some show ?thesis by (cases err) (simp add: step_def)
  next
    case (Inr z)
    obtain t criteria b where z: "z = (t, criteria, b)" by (cases z)
    with Some Inr show ?thesis
      by (cases b) (auto simp add: step_def Let_def)
  qed
qed


lemma step_flagged_entry:
  assumes "tensor_any criteria0"
  shows "map_option (\<lambda>y. sm_state (snd y)) (step c k sim s gp criteria0) = Some (sm_state s)"
proof -
  have "step_loop c k sim (s\<lparr>grasp_pose := gp\<rparr>) criteria0 False
          = Some (Inr (s\<lparr>grasp_pose := gp\<rparr>, criteria0, False))"
    using assms by (subst step_loop.simps) simp
  then show ?thesis by (simp add: step_def Let_def)
qed

text \<open>
  C5 (amended). \<open>step\<close> returns an observation exactly when it is entered with no flag of
  the supplied criteria set, the camera list can be read, and some pass of the loop body
  ends without error with at least one world in CHOOSE_OBJECT; it then returns after the
  first such pass, with the state of that pass and the per-world flags of the worlds in
  CHOOSE_OBJECT, whatever states the other worlds are in. Entered with a flag already
  set, the loop runs no pass and waits for no world: \<open>step\<close> ends with every world in the
  state it had on entry.
\<close>

theorem step_returns_at_first_choose_object:
  "(step c k sim s gp criteria0 = Some (Inr res, s'') \<longleftrightarrow>
      \<not> tensor_any criteria0 \<and> \<not> (disable_camera c \<and> 0 < n_multiple_cam c)
      \<and> (\<exists>n t. passes c k sim (Suc n) (s\<lparr>grasp_pose := gp\<rparr>) = (None, t)
            \<and> s'' = t\<lparr>camera_info := camera_data_info t\<rparr>
            \<and> res = (if use_sb3 c then None else Some (policy_inference_criteria c t))
            \<and> (\<exists>w. in_choose_object c t w)
            \<and> (\<forall>m<n. \<forall>t'. passes c k sim (Suc m) (s\<lparr>grasp_pose := gp\<rparr>) = (None, t')
                  \<longrightarrow> (\<forall>w. \<not> in_choose_object c t' w))))
   \<and> (tensor_any criteria0 \<longrightarrow>
        map_option (\<lambda>y. sm_state (snd y)) (step c k sim s gp criteria0) = Some (sm_state s))"
proof (intro conjI impI)
  let ?s0 = "s\<lparr>grasp_pose := gp\<rparr>"
  let ?first = "\<lambda>n t. passes c k sim (Suc n) ?s0 = (None, t)
            \<and> tensor_any (policy_inference_criteria c t)
            \<and> (\<forall>m<n. \<forall>t'. passes c k sim (Suc m) ?s0 = (None, t')
                  \<longrightarrow> \<not> tensor_any (policy_inference_criteria c t'))"
  have loop: "\<And>t criteria. step_loop c k sim ?s0 criteria0 False = Some (Inr (t, criteria, True))
                \<longleftrightarrow> \<not> tensor_any criteria0
                    \<and> (\<exists>n. ?first n t \<and> criteria = policy_inference_criteria c t)"
    unfolding step_loop_normal_iff by auto
  have "step c k sim s gp criteria0 = Some (Inr res, s'') \<longleftrightarrow>
      \<not> tensor_any criteria0 \<and> \<not> (disable_camera c \<and> 0 < n_multiple_cam c)
      \<and> (\<exists>n t. ?first n t
            \<and> s'' = t\<lparr>camera_info := camera_data_info t\<rparr>
            \<and> res = (if use_sb3 c then None else Some (policy_inference_criteria c t)))"
    unfolding step_normal_iff loop by blast
  then show "step c k sim s gp criteria0 = Some (Inr res, s'') \<longleftrightarrow>
      \<not> tensor_any criteria0 \<and> \<not> (disable_camera c \<and> 0 < n_multiple_cam c)
      \<and> (\<exists>n t. passes c k sim (Suc n) (s\<lparr>grasp_pose := gp\<rparr>) = (None, t)
            \<and> s'' = t\<lparr>camera_info := camera_data_info t\<rparr>
            \<and> res = (if use_sb3 c then None else Some (policy_inference_criteria c t))
            \<and> (\<exists>w. in_choose_object c t w)
            \<and> (\<forall>m<n. \<forall>t'. passes c k sim (Suc m) (s\<lparr>grasp_pose := gp\<rparr>) = (None, t')
                  \<longrightarrow> (\<forall>w. \<not> in_choose_object c t' w)))"
    unfolding tensor_any_criteria by (simp only: not_ex) blast
next
  assume "tensor_any criteria0"
  then show "map_option (\<lambda>y. sm_state (snd y)) (step c k sim s gp criteria0) = Some (sm_state s)"
    by (rule step_flagged_entry)
qed


lemma summerize_and_reset_ok:
  "CONTROLLER c \<noteq> ''RMPFLOW'' \<Longrightarrow> fst (summerize_and_reset c s) = None"
  by (simp add: summerize_and_reset_def reset_robot_def Let_def)

lemma sm_state_summerize_and_reset [simp]:
  "sm_state (snd (summerize_and_reset c s)) = sm_state s"
  by (simp add: summerize_and_reset_def reset_robot_def reset_idx_def Let_def)

lemma sm_state_update_env_state [simp]:
  "sm_state (update_env_state c s) = sm_state s"
  by (simp add: update_env_state_def Let_def)

lemma env_two_example_body:
  "fst (step_body cfg_example kernel_example (\<lambda>s. s) (env_two_example\<lparr>grasp_pose := gp\<rparr>)) = None"
  "sm_state (snd (step_body cfg_example kernel_example (\<lambda>s. s) (env_two_example\<lparr>grasp_pose := gp\<rparr>)))
     = [3, 2]"
proof -
  have r: "env_reachable_and_stable
             (update_env_state cfg_example (env_two_example\<lparr>grasp_pose := gp\<rparr>)) = [True, False]"
    by (simp add: update_env_state_def Let_def object_pos_def get_obj_pos_def get_obj_vel_def
        mean_abs_def env_two_example_def init_def cfg_example_def at_rest_def eval_nat_numeral)
  have s: "sm_state (env_two_example\<lparr>grasp_pose := gp\<rparr>) = [2, 2]"
    by (simp add: env_two_example_def init_def eval_nat_numeral)
  have c: "CONTROLLER cfg_example \<noteq> ''RMPFLOW''" by (simp add: cfg_example_def)
  show "fst (step_body cfg_example kernel_example (\<lambda>s. s) (env_two_example\<lparr>grasp_pose := gp\<rparr>)) = None"
    using c by (simp add: step_body_def Let_def summerize_and_reset_ok)
  show "sm_state (snd (step_body cfg_example kernel_example (\<lambda>s. s) (env_two_example\<lparr>grasp_pose := gp\<rparr>)))
     = [3, 2]"
    using c by (simp add: step_body_def Let_def kernel_example_def r s)
qed

lemma env_two_example_pass:
  "passes cfg_example kernel_example (\<lambda>s. s) (Suc 0) (env_two_example\<lparr>grasp_pose := gp\<rparr>)
     = (None, snd (step_body cfg_example kernel_example (\<lambda>s. s) (env_two_example\<lparr>grasp_pose := gp\<rparr>)))"
  using env_two_example_body(1) [of gp]
  by (cases "step_body cfg_example kernel_example (\<lambda>s. s) (env_two_example\<lparr>grasp_pose := gp\<rparr>)") simp

lemma env_two_example_criteria:
  "policy_inference_criteria cfg_example
     (snd (step_body cfg_example kernel_example (\<lambda>s. s) (env_two_example\<lparr>grasp_pose := gp\<rparr>)))
     = [True, False]"
  by (simp add: policy_inference_criteria_def env_two_example_body)
     (simp add: cfg_example_def sm_example_def)

lemma env_two_example_step:
  "step cfg_example kernel_example (\<lambda>s. s) env_two_example [] [] =
     Some (Inr (Some [True, False]),
           (snd (step_body cfg_example kernel_example (\<lambda>s. s) (env_two_example\<lparr>grasp_pose := []\<rparr>)))
             \<lparr>camera_info := camera_data_info
                (snd (step_body cfg_example kernel_example (\<lambda>s. s)
                        (env_two_example\<lparr>grasp_pose := []\<rparr>)))\<rparr>)"
proof -
  let ?s0 = "env_two_example\<lparr>grasp_pose := []\<rparr>"
  let ?t = "snd (step_body cfg_example kernel_example (\<lambda>s. s) ?s0)"
  have a: "\<not> tensor_any []" by (simp add: tensor_any_def)
  have b: "tensor_any (policy_inference_criteria cfg_example ?t)"
    by (simp add: env_two_example_criteria tensor_any_def)
  have c: "\<forall>m<(0::nat). \<forall>t'. passes cfg_example kernel_example (\<lambda>s. s) (Suc m) ?s0 = (None, t')
             \<longrightarrow> \<not> tensor_any (policy_inference_criteria cfg_example t')"
    by simp
  have "step_loop cfg_example kernel_example (\<lambda>s. s) ?s0 [] False
          = Some (Inr (?t, policy_inference_criteria cfg_example ?t, True))"
    by (rule step_loop_run [OF a env_two_example_pass b c])
  then show ?thesis
    by (simp add: step_def Let_def env_two_example_criteria) (simp add: cfg_example_def)
qed

lemma env_two_example_step_flagged:
  "step cfg_example kernel_example (\<lambda>s. s) env_two_example [] [True, False] =
     Some (Inl UnboundLocalError,
           env_two_example\<lparr>grasp_pose := [], camera_info := camera_data_info env_two_example\<rparr>)"
proof -
  have "step_loop cfg_example kernel_example (\<lambda>s. s) (env_two_example\<lparr>grasp_pose := []\<rparr>)
          [True, False] False
          = Some (Inr (env_two_example\<lparr>grasp_pose := []\<rparr>, [True, False], False))"
    by (subst step_loop.simps) (simp add: tensor_any_def)
  then show ?thesis
    by (simp add: step_def Let_def) (simp add: cfg_example_def)
qed

theorem step_returns_at_first_choose_object_witness:
  "map_option fst (step cfg_example kernel_example (\<lambda>s. s) env_two_example [] [])
       = Some (Inr (Some [True, False]))
   \<and> map_option (\<lambda>y. sm_state (snd y))
        (step cfg_example kernel_example (\<lambda>s. s) env_two_example [] [True, False])
       = Some [2, 2]"
proof -
  let ?s0 = "env_two_example\<lparr>grasp_pose := []\<rparr>"
  let ?t = "snd (step_body cfg_example kernel_example (\<lambda>s. s) ?s0)"
  note th = step_returns_at_first_choose_object
    [of cfg_example kernel_example "\<lambda>s. s" env_two_example "[]" _ _
        "?t\<lparr>camera_info := camera_data_info ?t\<rparr>"]
  have h1: "\<not> tensor_any []" by (simp add: tensor_any_def)
  have h2: "\<not> (disable_camera cfg_example \<and> 0 < n_multiple_cam cfg_example)"
    by (simp add: cfg_example_def)
  have u: "\<not> use_sb3 cfg_example" by (simp add: cfg_example_def)
  have w: "in_choose_object cfg_example ?t 0"
    by (simp add: in_choose_object_def env_two_example_body) (simp add: cfg_example_def sm_example_def)
  have p3: "Some [True, False]
              = (if use_sb3 cfg_example then None
                 else Some (policy_inference_criteria cfg_example ?t))"
    using u by (simp add: env_two_example_criteria)
  have p4: "\<exists>w. in_choose_object cfg_example ?t w" using w by blast
  have p5: "\<forall>m<(0::nat). \<forall>t'. passes cfg_example kernel_example (\<lambda>s. s) (Suc m) ?s0 = (None, t')
              \<longrightarrow> (\<forall>w. \<not> in_choose_object cfg_example t' w)" by simp
  have ex: "\<exists>n t. passes cfg_example kernel_example (\<lambda>s. s) (Suc n) ?s0 = (None, t)
          \<and> ?t\<lparr>camera_info := camera_data_info ?t\<rparr> = t\<lparr>camera_info := camera_data_info t\<rparr>
          \<and> Some [True, False]
              = (if use_sb3 cfg_example then None
                 else Some (policy_inference_criteria cfg_example t))
          \<and> (\<exists>w. in_choose_object cfg_example t w)
          \<and> (\<forall>m<n. \<forall>t'. passes cfg_example kernel_example (\<lambda>s. s) (Suc m) ?s0 = (None, t')
                \<longrightarrow> (\<forall>w. \<not> in_choose_object cfg_example t' w))"
    apply (rule exI [of _ 0])
    apply (rule exI [of _ ?t])
    apply (intro conjI)
        apply (rule env_two_example_pass)
       apply (rule refl)
      apply (rule p3)
     apply (rule p4)
    apply (rule p5)
    done
  have a: "step cfg_example kernel_example (\<lambda>s. s) env_two_example [] []
               = Some (Inr (Some [True, False]), ?t\<lparr>camera_info := camera_data_info ?t\<rparr>)"
    using th [of "[]" "Some [True, False]"] h1 h2 ex by blast
  have f: "tensor_any [True, False]" by (simp add: tensor_any_def)
  have b: "map_option (\<lambda>y. sm_state (snd y))
        (step cfg_example kernel_example (\<lambda>s. s) env_two_example [] [True, False])
       = Some (sm_state env_two_example)"
    using th [of "[True, False]" "Some [True, False]"] f by blast
  have s: "sm_state env_two_example = [2, 2]"
    by (simp add: env_two_example_def init_def eval_nat_numeral)
  from a have "map_option fst (step cfg_example kernel_example (\<lambda>s. s) env_two_example [] [])
       = Some (Inr (Some [True, False]))"
    by (simp only: option.map fst_conv)
  with b s show ?thesis by simp
qed

text \<open>
  C5 as stated fails. Entered with world 0 flagged while both worlds are in START (2),
  \<open>step\<close> ends at once, with an error, and world 0 is still in START. Entered with no world
  flagged, from two worlds in START of which only world 0 is ready, it returns after one
  pass with world 0 in CHOOSE_OBJECT (3) and world 1 still in START.
\<close>

theorem step_returns_before_all_counterexample:
  "map_option fst (step cfg_example kernel_example (\<lambda>s. s) env_two_example [] [True, False])
     = Some (Inl UnboundLocalError)
   \<and> map_option (\<lambda>y. sm_state (snd y))
        (step cfg_example kernel_example (\<lambda>s. s) env_two_example [] [True, False])
       = Some [2, 2]
   \<and> map_option fst (step cfg_example kernel_example (\<lambda>s. s) env_two_example [] [])
       = Some (Inr (Some [True, False]))
   \<and> map_option (\<lambda>y. sm_state (snd y)) (step cfg_example kernel_example (\<lambda>s. s) env_two_example [] [])
       = Some [3, 2]
   \<and> STATE_MACHINE cfg_example ''choose_object'' = 3
   \<and> STATE_MACHINE cfg_example ''start'' = 2"
proof -
  have s: "sm_state env_two_example = [2, 2]"
    by (simp add: env_two_example_def init_def eval_nat_numeral)
  have a: "map_option fst (step cfg_example kernel_example (\<lambda>s. s) env_two_example [] [True, False])
     = Some (Inl UnboundLocalError)"
    by (simp only: env_two_example_step_flagged option.map fst_conv)
  have b: "map_option (\<lambda>y. sm_state (snd y))
        (step cfg_example kernel_example (\<lambda>s. s) env_two_example [] [True, False])
       = Some [2, 2]"
    unfolding env_two_example_step_flagged by (simp add: s)
  have c: "map_option fst (step cfg_example kernel_example (\<lambda>s. s) env_two_example [] [])
     = Some (Inr (Some [True, False]))"
    by (simp only: env_two_example_step option.map fst_conv)
  have d: "map_option (\<lambda>y. sm_state (snd y)) (step cfg_example kernel_example (\<lambda>s. s) env_two_example [] [])
       = Some [3, 2]"
    unfolding env_two_example_step by (simp add: env_two_example_body)
  have e: "STATE_MACHINE cfg_example ''choose_object'' = 3 \<and> STATE_MACHINE cfg_example ''start'' = 2"
    by (simp add: cfg_example_def sm_example_def)
  from a b c d e show ?thesis by blast
qed

section \<open>Resets and sensor snapshots\<close>

lemma summerize_and_reset_emitted:
  "emitted s (snd (summerize_and_reset c s)) =
     (if CONTROLLER c = ''RMPFLOW''
      then [WriteJointState (init_id c s), RobotReset (init_id c s)]
      else [WriteJointState (init_id c s), RobotReset (init_id c s),
            ControllerReset (init_id c s), ResetIdx (init_env_id c s)])"
  by (simp add: emitted_def summerize_and_reset_def reset_idx_def reset_robot_def Let_def)

lemma init_id_mem:
  "w \<in> set (init_id c s) \<longleftrightarrow> w < num_envs s \<and> sm_state s ! w = STATE_MACHINE c ''init''"
  by (auto simp add: init_id_def)

lemma init_env_id_mem:
  "w \<in> set (init_env_id c s) \<longleftrightarrow> w < num_envs s \<and> sm_state s ! w = STATE_MACHINE c ''init_env''"
  by (auto simp add: init_env_id_def)

text \<open>
  C8. The reset of the worlds flagged INIT or INIT_ENV on a tick leaves the discrete
  states, the timers, the ledger and the counters as they were, and for a world \<open>w\<close> that
  is in neither state no request sent to the robot, the controller or the simulation
  names \<open>w\<close>. (The state meant is the one the call leaves, also when it ends in an error.)
\<close>

theorem reset_isolation:
  assumes "sm_state s ! w \<noteq> STATE_MACHINE c ''init''"
    and "sm_state s ! w \<noteq> STATE_MACHINE c ''init_env''"
  shows "sm_state (snd (summerize_and_reset c s)) = sm_state s
         \<and> sm_wait_time (snd (summerize_and_reset c s)) = sm_wait_time s
         \<and> reward_recorder (snd (summerize_and_reset c s)) = reward_recorder s
         \<and> epi_step_count (snd (summerize_and_reset c s)) = epi_step_count s
         \<and> obj_chosen (snd (summerize_and_reset c s)) = obj_chosen s
         \<and> (\<forall>x \<in> set (emitted s (snd (summerize_and_reset c s))). w \<notin> effect_worlds x)"
proof -
  have a: "w \<notin> set (init_id c s)" using assms(1) by (simp add: init_id_mem)
  have b: "w \<notin> set (init_env_id c s)" using assms(2) by (simp add: init_env_id_mem)
  have "\<forall>x \<in> set (emitted s (snd (summerize_and_reset c s))). w \<notin> effect_worlds x"
    using a b by (simp add: summerize_and_reset_emitted)
  then show ?thesis
    by (simp add: summerize_and_reset_def reset_idx_def reset_robot_def Let_def)
qed

theorem reset_isolation_witness:
  "sm_state env_reset_example ! 1 \<noteq> STATE_MACHINE cfg_example ''init''
   \<and> sm_state env_reset_example ! 1 \<noteq> STATE_MACHINE cfg_example ''init_env''
   \<and> sm_state (snd (summerize_and_reset cfg_example env_reset_example)) = [0, 2, 1]
   \<and> emitted env_reset_example (snd (summerize_and_reset cfg_example env_reset_example))
       = [WriteJointState [0], RobotReset [0], ControllerReset [0], ResetIdx [2]]
   \<and> list_all (\<lambda>x. 1 \<notin> effect_worlds x)
        (emitted env_reset_example (snd (summerize_and_reset cfg_example env_reset_example)))"
proof -
  have h1: "sm_state env_reset_example ! 1 \<noteq> STATE_MACHINE cfg_example ''init''"
    by (simp add: env_reset_example_def cfg_example_def sm_example_def)
  have h2: "sm_state env_reset_example ! 1 \<noteq> STATE_MACHINE cfg_example ''init_env''"
    by (simp add: env_reset_example_def cfg_example_def sm_example_def)
  have st: "sm_state env_reset_example = [0, 2, 1]"
    by (simp add: env_reset_example_def)
  have i1: "init_id cfg_example env_reset_example = [0]"
    by (simp add: init_id_def env_reset_example_def init_def cfg_example_def sm_example_def
        eval_nat_numeral)
  have i2: "init_env_id cfg_example env_reset_example = [2]"
    by (simp add: init_env_id_def env_reset_example_def init_def cfg_example_def sm_example_def
        eval_nat_numeral)
  have em: "emitted env_reset_example (snd (summerize_and_reset cfg_example env_reset_example))
       = [WriteJointState [0], RobotReset [0], ControllerReset [0], ResetIdx [2]]"
    by (simp add: summerize_and_reset_emitted i1 i2) (simp add: cfg_example_def)
  from reset_isolation [OF h1 h2]
  have "sm_state (snd (summerize_and_reset cfg_example env_reset_example))
          = sm_state env_reset_example
        \<and> list_all (\<lambda>x. 1 \<notin> effect_worlds x)
             (emitted env_reset_example (snd (summerize_and_reset cfg_example env_reset_example)))"
    by (simp add: list_all_iff)
  with h1 h2 st em show ?thesis by simp
qed

text \<open>
  C9 (amended). When the depth channel is missing from the observation data, the
  assertion fails before any world is looked at: the call raises AssertionError for all
  the worlds it was given, no snapshot is saved for any of them and the state is left as
  it was; nothing in the class catches the error or retries.
\<close>

theorem missing_depth_assertion_error:
  assumes "dc ''distance_to_image_plane'' = None"
  shows "get_grasp_pose_demo c ids dc s = (Inl AssertionError, s)"
  using assms by (simp add: get_grasp_pose_demo_def)

theorem missing_depth_assertion_error_witness:
  "data_cam_no_depth ''distance_to_image_plane'' = None
   \<and> get_grasp_pose_demo cfg_example [0, 1] data_cam_no_depth env_demo_example
       = (Inl AssertionError, env_demo_example)"
proof -
  have h: "data_cam_no_depth ''distance_to_image_plane'' = None"
    by (simp add: data_cam_no_depth_def)
  from missing_depth_assertion_error [where dc = data_cam_no_depth, OF h] h
  show ?thesis by blast
qed

text \<open>
  C9 as stated fails: with every channel present the call saves a snapshot for world 0 and
  for world 1 and returns the grasp poses; without the depth channel the same call raises
  AssertionError and saves nothing, for either world.
\<close>

theorem missing_depth_counterexample:
  "fst (get_grasp_pose_demo cfg_example [0, 1] data_cam_full env_demo_example)
     = Inr (grasp_pose env_demo_example)
   \<and> emitted env_demo_example
        (snd (get_grasp_pose_demo cfg_example [0, 1] data_cam_full env_demo_example))
       = [SaveData 0 (Some 10) (Some 20) (Some 40) (Some 30) None [7],
          SaveData 1 (Some 11) (Some 21) (Some 41) (Some 31) None [8]]
   \<and> fst (get_grasp_pose_demo cfg_example [0, 1] data_cam_no_depth env_demo_example)
       = Inl AssertionError
   \<and> emitted env_demo_example
        (snd (get_grasp_pose_demo cfg_example [0, 1] data_cam_no_depth env_demo_example)) = []"
proof -
  have a: "get_grasp_pose_demo cfg_example [0, 1] data_cam_no_depth env_demo_example
             = (Inl AssertionError, env_demo_example)"
    by (simp add: get_grasp_pose_demo_def data_cam_no_depth_def)
  have b: "get_grasp_pose_demo cfg_example [0, 1] data_cam_full env_demo_example
             = (Inr (grasp_pose env_demo_example),
                env_demo_example\<lparr>effects := effects env_demo_example @
                  [SaveData 0 (Some 10) (Some 20) (Some 40) (Some 30) None [7],
                   SaveData 1 (Some 11) (Some 21) (Some 41) (Some 31) None [8]]\<rparr>)"
    by (simp add: get_grasp_pose_demo_def data_cam_full_def demo_world_def frame_of_def
        env_demo_example_def cfg_example_def init_def)
  show ?thesis
    unfolding a b by (simp add: emitted_def)
qed

section \<open>Export: what \<open>recorder\<close> writes\<close>

lemma gather_length: "gather xs ids = Inr ys \<Longrightarrow> length ys = length ids"
  by (induction ids arbitrary: ys) (auto split: option.splits sum.splits)

lemma gather_set: "gather xs ids = Inr ys \<Longrightarrow> set ys \<subseteq> set xs"
proof (induction ids arbitrary: ys)
  case Nil
  then show ?case by simp
next
  case (Cons i ids)
  then show ?case
    by (auto simp add: py_index_def split: option.splits sum.splits if_splits)
qed

lemma length_concat_replicate:
  "length ids = length gt \<Longrightarrow>
   length (concat (map (\<lambda>(i, g). replicate (length g) i) (zip ids gt))) = length (concat gt)"
  by (induction ids gt rule: list_induct2) simp_all

lemma length_concat_upt:
  "length (concat (map (\<lambda>episode. [0..<length episode]) gt)) = length (concat gt)"
  by (induction gt) simp_all

lemma data_frame_ok:
  assumes "length ids = length gt" and "length eps = length gt"
  shows "\<exists>rows. data_frame ids eps gt = Inr rows \<and> length rows = length (concat gt)"
  using assms
  by (simp add: data_frame_def Let_def length_concat_replicate length_concat_upt)

lemma length_concat_const:
  "\<forall>g \<in> set gt. length g = n \<Longrightarrow> length (concat gt) = n * length gt"
  by (induction gt) simp_all

lemma recorder_rows:
  assumes "recorder s store = (None, store')" and "env_reset_id s \<noteq> []"
    and "count s \<noteq> Some 0"
  shows "\<exists>rows gt. gather (reward_recorder s) (env_reset_id s) = Inr gt
           \<and> length rows = length (concat gt)
           \<and> (\<forall>f. recorder s f = (None, Some ((case f of None \<Rightarrow> [] | Some old \<Rightarrow> old) @ rows)))"
proof -
  from assms(1) obtain counters where c: "gather (epi_step_count s) (env_reset_id s) = Inr counters"
    by (auto simp add: recorder_def split: sum.splits)
  from assms(1) c obtain gt where g: "gather (reward_recorder s) (env_reset_id s) = Inr gt"
    by (auto simp add: recorder_def split: sum.splits)
  have cn: "count s \<noteq> None"
    using assms(1,2) c g by (auto simp add: recorder_def Let_def split: if_splits)
  have l1: "length (env_reset_id s) = length gt" using gather_length [OF g] by simp
  have l2: "length (map fst counters) = length gt" using gather_length [OF c] l1 by simp
  from data_frame_ok [OF l1 l2] obtain rows
    where r: "data_frame (env_reset_id s) (map fst counters) gt = Inr rows"
      and lr: "length rows = length (concat gt)"
    by blast
  have "\<And>f. recorder s f = (None, Some ((case f of None \<Rightarrow> [] | Some old \<Rightarrow> old) @ rows))"
    using c g r l1 l2 assms(2,3) cn
    by (simp add: recorder_def Let_def split: option.splits)
  with g lr show ?thesis by blast
qed

lemma recorder_noop:
  assumes "recorder s store = (None, store')" and "env_reset_id s = [] \<or> count s = Some 0"
  shows "store' = store"
  using assms
  by (auto simp add: recorder_def Let_def split: sum.splits if_splits)

text \<open>
  C7 (amended). An export that ends without error writes nothing when the list of
  exported worlds is empty or \<open>count\<close> is 0. Otherwise it keeps the rows the store
  already holds and appends its own after them (it creates the store when there is
  none), 100 rows for each exported world of a ledger with 100 episodes per world. It
  is not idempotent: a second export with nothing recorded in between appends the same
  rows once more.
\<close>

theorem recorder_appends:
  assumes "recorder s store = (None, store')"
    and "list_all (\<lambda>t. length t = 100) (reward_recorder s)"
  shows "(env_reset_id s = [] \<or> count s = Some 0 \<longrightarrow> store' = store)
         \<and> (env_reset_id s \<noteq> [] \<and> count s \<noteq> Some 0 \<longrightarrow>
              (\<exists>rows. length rows = 100 * length (env_reset_id s)
                 \<and> store' = Some ((case store of None \<Rightarrow> [] | Some old \<Rightarrow> old) @ rows)
                 \<and> recorder s store'
                     = (None, Some ((case store of None \<Rightarrow> [] | Some old \<Rightarrow> old) @ rows @ rows))))"
proof (intro conjI impI)
  assume "env_reset_id s = [] \<or> count s = Some 0"
  with assms(1) show "store' = store" by (rule recorder_noop)
next
  assume a: "env_reset_id s \<noteq> [] \<and> count s \<noteq> Some 0"
  then have a1: "env_reset_id s \<noteq> []" and a2: "count s \<noteq> Some 0" by simp_all
  from recorder_rows [OF assms(1) a1 a2] obtain rows gt
    where g: "gather (reward_recorder s) (env_reset_id s) = Inr gt"
      and lr: "length rows = length (concat gt)"
      and all: "\<forall>f. recorder s f = (None, Some ((case f of None \<Rightarrow> [] | Some old \<Rightarrow> old) @ rows))"
    by blast
  have "\<forall>g \<in> set gt. length g = 100"
    using gather_set [OF g] assms(2) by (auto simp add: list_all_iff)
  then have "length (concat gt) = 100 * length gt" by (rule length_concat_const)
  with lr gather_length [OF g] have len: "length rows = 100 * length (env_reset_id s)" by simp
  from all assms(1) have s': "store' = Some ((case store of None \<Rightarrow> [] | Some old \<Rightarrow> old) @ rows)"
    by simp
  from all have "recorder s store'
      = (None, Some ((case store' of None \<Rightarrow> [] | Some old \<Rightarrow> old) @ rows))"
    by blast
  with s' have "recorder s store'
      = (None, Some ((case store of None \<Rightarrow> [] | Some old \<Rightarrow> old) @ rows @ rows))"
    by simp
  with len s' show "\<exists>rows. length rows = 100 * length (env_reset_id s)
                 \<and> store' = Some ((case store of None \<Rightarrow> [] | Some old \<Rightarrow> old) @ rows)
                 \<and> recorder s store'
                     = (None, Some ((case store of None \<Rightarrow> [] | Some old \<Rightarrow> old) @ rows @ rows))"
    by blast
qed

lemma env_export_example_gather:
  "gather (epi_step_count env_export_example) (env_reset_id env_export_example) = Inr [(0, 0)]"
  "gather (reward_recorder env_export_example) (env_reset_id env_export_example)
     = Inr [replicate 100 (replicate 3 0)]"
  by (simp_all add: env_export_example_def env_fresh_example_def init_def py_index_def cfg_example_def)

lemma env_export_example_recorder:
  "\<exists>rows. length rows = 100
     \<and> (\<forall>f. recorder env_export_example f
              = (None, Some ((case f of None \<Rightarrow> [] | Some old \<Rightarrow> old) @ rows)))"
proof -
  have l1: "length (env_reset_id env_export_example) = length [replicate 100 (replicate 3 (0::real))]"
    by (simp add: env_export_example_def env_fresh_example_def init_def)
  have l2: "length (map fst [(0::int, 0::int)]) = length [replicate 100 (replicate 3 (0::real))]"
    by simp
  from data_frame_ok [OF l1 l2] obtain rows
    where r: "data_frame (env_reset_id env_export_example) (map fst [(0::int, 0::int)])
                [replicate 100 (replicate 3 0)] = Inr rows"
      and lr: "length rows = length (concat [replicate 100 (replicate 3 (0::real))])"
    by blast
  have c: "count env_export_example = Some 1" "env_reset_id env_export_example \<noteq> []"
    by (simp_all add: env_export_example_def env_fresh_example_def init_def)
  have "\<And>f. recorder env_export_example f
            = (None, Some ((case f of None \<Rightarrow> [] | Some old \<Rightarrow> old) @ rows))"
    using r c l1
    by (simp add: recorder_def env_export_example_gather Let_def split: option.splits)
  moreover from lr have "length rows = 100" by simp
  ultimately show ?thesis by blast
qed

theorem recorder_appends_witness:
  "fst (recorder env_export_example None) = None
   \<and> list_all (\<lambda>t. length t = 100) (reward_recorder env_export_example)
   \<and> env_reset_id env_export_example \<noteq> [] \<and> count env_export_example \<noteq> Some 0
   \<and> map_option length (snd (recorder env_export_example None)) = Some 100
   \<and> map_option length
        (snd (recorder env_export_example (snd (recorder env_export_example None)))) = Some 200"
proof -
  have h1: "recorder env_export_example None
              = (None, snd (recorder env_export_example None))"
    using env_export_example_recorder by auto
  have h2: "env_reset_id env_export_example \<noteq> []"
    by (simp add: env_export_example_def env_fresh_example_def init_def)
  have h3: "count env_export_example \<noteq> Some 0"
    by (simp add: env_export_example_def env_fresh_example_def init_def)
  have h4: "list_all (\<lambda>t. length t = 100) (reward_recorder env_export_example)"
    by (simp add: env_export_example_def env_fresh_example_def init_def)
  have n: "length (env_reset_id env_export_example) = 1"
    by (simp add: env_export_example_def env_fresh_example_def init_def)
  from recorder_appends [OF h1 h4] h2 h3 obtain rows
    where "length rows = 100 * length (env_reset_id env_export_example)"
      and "snd (recorder env_export_example None) = Some ([] @ rows)"
      and "recorder env_export_example (snd (recorder env_export_example None))
             = (None, Some ([] @ rows @ rows))"
    by auto
  then have "map_option length (snd (recorder env_export_example None)) = Some 100
     \<and> map_option length
          (snd (recorder env_export_example (snd (recorder env_export_example None)))) = Some 200"
    by (simp add: n)
  moreover from h1 have "fst (recorder env_export_example None) = None"
    by (metis fst_conv)
  ultimately show ?thesis using h2 h3 h4 by blast
qed

lemma env_fresh_example_recorder:
  "recorder env_fresh_example store = (Some AttributeError, store)"
  by (simp add: recorder_def env_fresh_example_def init_def py_index_def Let_def)

text \<open>
  C7 as stated fails. On the world as \<open>__init__\<close> leaves it, export raises AttributeError
  and writes nothing. With \<open>count\<close> set to 1, exporting the ledger of that world twice in a
  row, starting without a store, leaves 100 rows after the first export and 200 after
  the second.
\<close>

theorem recorder_not_idempotent_counterexample:
  "recorder env_fresh_example None = (Some AttributeError, None)
   \<and> count env_export_example = Some 1
   \<and> fst (recorder env_export_example None) = None
   \<and> map_option length (snd (recorder env_export_example None)) = Some 100
   \<and> fst (recorder env_export_example (snd (recorder env_export_example None))) = None
   \<and> map_option length
        (snd (recorder env_export_example (snd (recorder env_export_example None)))) = Some 200
   \<and> snd (recorder env_export_example (snd (recorder env_export_example None)))
       \<noteq> snd (recorder env_export_example None)"
proof -
  from env_export_example_recorder obtain rows where l: "length rows = 100"
    and all: "\<forall>f. recorder env_export_example f
              = (None, Some ((case f of None \<Rightarrow> [] | Some old \<Rightarrow> old) @ rows))"
    by blast
  from all have a: "recorder env_export_example None = (None, Some rows)" by simp
  from all have b: "recorder env_export_example (Some rows) = (None, Some (rows @ rows))" by simp
  have c: "count env_export_example = Some 1"
    by (simp add: env_export_example_def env_fresh_example_def init_def)
  have "rows @ rows \<noteq> rows" using l by auto
  then show ?thesis by (simp add: a b c l env_fresh_example_recorder)
qed

section \<open>The reward ledger: what \<open>_record_reward\<close> does\<close>

lemma world_frame_refl: "world_frame i s s"
  by (simp add: world_frame_def)

lemma world_frame_trans:
  assumes "world_frame i s s1" and "world_frame i s1 s2"
  shows "world_frame i s s2"
proof -
  from assms(1) obtain a where a: "effects s1 = effects s @ a" "list_all (\<lambda>x. i \<notin> effect_worlds x) a"
    by (auto simp add: world_frame_def)
  from assms(2) obtain b where b: "effects s2 = effects s1 @ b" "list_all (\<lambda>x. i \<notin> effect_worlds x) b"
    by (auto simp add: world_frame_def)
  have "effects s2 = effects s @ (a @ b) \<and> list_all (\<lambda>x. i \<notin> effect_worlds x) (a @ b)"
    using a b by simp
  then have "\<exists>new. effects s2 = effects s @ new \<and> list_all (\<lambda>x. i \<notin> effect_worlds x) new"
    by blast
  with assms show ?thesis by (simp add: world_frame_def)
qed

lemma record_world_frame:
  assumes "record_world c jr i s = (r, s')" and "j \<noteq> i"
  shows "world_frame j s s'"
  using assms
  by (auto simp add: record_world_def world_frame_def Let_def split: if_splits option.splits)


lemma record_world_skip:
  assumes "\<not> (reward_buf s ! i \<noteq> 0 \<and> judge_reward ! i)"
    and "record_world c judge_reward i s = (None, s')"
  shows "s' = s"
  using assms by (auto simp add: record_world_def Let_def split: if_splits option.splits)

lemma record_world_success:
  assumes "reward_buf s ! i \<noteq> 0" and "judge_reward ! i"
    and "record_world c judge_reward i s = (None, s')"
  shows "\<exists>e st. py_index (length (reward_recorder s ! i)) (fst (epi_step_count s ! i)) = Some e
           \<and> py_index (length (reward_recorder s ! i ! e)) (snd (epi_step_count s ! i)) = Some st
           \<and> reward_recorder s' ! i ! e ! st = reward_recorder s ! i ! e ! st + reward_buf s ! i
           \<and> effects s' = effects s @
                [WriteRootState (obj_chosen s ! i) i,
                 PrintSuccess i (fst (epi_step_count s ! i)) (snd (epi_step_count s ! i))
                   (sum_list (reward_recorder s' ! i ! e))]
           \<and> obj_chosen s' ! i = - 1
           \<and> sm_state s' ! i = STATE_MACHINE c ''init''"
proof -
  from assms obtain e where e: "py_index (length (reward_recorder s ! i)) (fst (epi_step_count s ! i)) = Some e"
    and li: "i < length (reward_recorder s)"
    by (auto simp add: record_world_def Let_def split: if_splits option.splits)
  from assms e obtain st
    where st: "py_index (length (reward_recorder s ! i ! e)) (snd (epi_step_count s ! i)) = Some st"
    by (auto simp add: record_world_def Let_def split: if_splits option.splits)
  have le: "e < length (reward_recorder s ! i)"
    using e by (auto simp add: py_index_def split: if_splits)
  have ls: "st < length (reward_recorder s ! i ! e)"
    using st by (auto simp add: py_index_def split: if_splits)
  from assms e st li le ls show ?thesis
    by (auto simp add: record_world_def Let_def split: if_splits)
qed

lemma record_loop_frame:
  assumes "record_loop c jr is s = (r, s')" and "i \<notin> set is"
  shows "world_frame i s s'"
  using assms
proof (induction "is" arbitrary: s)
  case Nil
  then show ?case by (simp add: world_frame_refl)
next
  case (Cons j js)
  obtain r1 s1 where w: "record_world c jr j s = (r1, s1)" by (cases "record_world c jr j s")
  from Cons.prems(2) have ji: "i \<noteq> j" and nin: "i \<notin> set js" by auto
  have f1: "world_frame i s s1" by (rule record_world_frame [OF w ji])
  show ?case
  proof (cases r1)
    case None
    with Cons.prems(1) w have "record_loop c jr js s1 = (r, s')" by simp
    from Cons.IH [OF this nin] f1 show ?thesis by (blast intro: world_frame_trans)
  next
    case (Some e)
    with Cons.prems(1) w have "s' = s1" by simp
    with f1 show ?thesis by simp
  qed
qed

lemma record_loop_at:
  assumes "record_loop c jr is s = (None, s')" and "i \<in> set is" and "distinct is"
  shows "\<exists>s1 s2. world_frame i s s1 \<and> record_world c jr i s1 = (None, s2) \<and> world_frame i s2 s'"
  using assms
proof (induction "is" arbitrary: s)
  case Nil
  then show ?case by simp
next
  case (Cons j js)
  obtain r1 s1 where w: "record_world c jr j s = (r1, s1)" by (cases "record_world c jr j s")
  from Cons.prems(1) w have r1: "r1 = None" by (cases r1) auto
  with Cons.prems(1) w have rest: "record_loop c jr js s1 = (None, s')" by simp
  show ?case
  proof (cases "i = j")
    case True
    with Cons.prems(3) have "i \<notin> set js" by simp
    from record_loop_frame [OF rest this] have "world_frame i s1 s'" .
    moreover have "world_frame i s s" by (rule world_frame_refl)
    moreover from w r1 True have "record_world c jr i s = (None, s1)" by simp
    ultimately show ?thesis by blast
  next
    case False
    with Cons.prems(2,3) have mem: "i \<in> set js" and d: "distinct js" by auto
    from Cons.IH [OF rest mem d] obtain t1 t2
      where a: "world_frame i s1 t1" and b: "record_world c jr i t1 = (None, t2)"
        and c: "world_frame i t2 s'"
      by blast
    have "world_frame i s s1" using record_world_frame [OF w] False by blast
    from this a have "world_frame i s t1" by (rule world_frame_trans)
    with b c show ?thesis by blast
  qed
qed


lemma world_frame_emitted:
  assumes "world_frame i s s1" and "effects s2 = effects s1 @ mid" and "world_frame i s2 s'"
  shows "\<exists>a d. emitted s s' = a @ mid @ d
           \<and> list_all (\<lambda>x. i \<notin> effect_worlds x) a \<and> list_all (\<lambda>x. i \<notin> effect_worlds x) d"
proof -
  from assms(1) obtain a where a: "effects s1 = effects s @ a" "list_all (\<lambda>x. i \<notin> effect_worlds x) a"
    by (auto simp add: world_frame_def)
  from assms(3) obtain d where d: "effects s' = effects s2 @ d" "list_all (\<lambda>x. i \<notin> effect_worlds x) d"
    by (auto simp add: world_frame_def)
  have "emitted s s' = a @ mid @ d"
    using a(1) d(1) assms(2) by (simp add: emitted_def)
  with a(2) d(2) show ?thesis by blast
qed

lemma upt_0_2: "[0..<2] = [0, Suc 0]"
  by (simp add: numeral_2_eq_2)

lemma env_reward_example_run:
  "fst (record_reward cfg_example [True, True] env_reward_example) = None"
  "sm_state (snd (record_reward cfg_example [True, True] env_reward_example)) = [0, 6]"
  "obj_chosen (snd (record_reward cfg_example [True, True] env_reward_example)) = [- 1, 0]"
  "reward_recorder (snd (record_reward cfg_example [True, True] env_reward_example)) ! 0 ! 0 ! 2 = 1 / 2"
  by (simp_all add: record_reward_def record_world_def env_reward_example_def init_def
      py_index_def cfg_example_def sm_example_def Let_def upt_0_2)

text \<open>
  C6 (amended). When \<open>_record_reward\<close> returns, for every world \<open>i\<close>: if the world's reward
  is non-zero and its judge flag is set, the ledger cell at the world's episode and step
  index has grown by the world's reward \<open>reward_buf[i]\<close>, a success line for the world was
  printed, the chosen object was written to the drop pose in that world, the world's
  chosen object is -1 and its state is INIT; otherwise the world's state, ledger and
  chosen object are as before and no request names the world.
\<close>

theorem record_reward_outcome:
  assumes "record_reward c jr s = (None, s')" and "i < length (reward_buf s)"
  shows "(reward_buf s ! i \<noteq> 0 \<and> jr ! i \<longrightarrow>
            (\<exists>e st. py_index (length (reward_recorder s ! i)) (fst (epi_step_count s ! i)) = Some e
               \<and> py_index (length (reward_recorder s ! i ! e)) (snd (epi_step_count s ! i)) = Some st
               \<and> reward_recorder s' ! i ! e ! st = reward_recorder s ! i ! e ! st + reward_buf s ! i
               \<and> PrintSuccess i (fst (epi_step_count s ! i)) (snd (epi_step_count s ! i))
                    (sum_list (reward_recorder s' ! i ! e)) \<in> set (emitted s s')
               \<and> WriteRootState (obj_chosen s ! i) i \<in> set (emitted s s')
               \<and> obj_chosen s' ! i = - 1
               \<and> sm_state s' ! i = STATE_MACHINE c ''init''))
         \<and> (\<not> (reward_buf s ! i \<noteq> 0 \<and> jr ! i) \<longrightarrow>
              sm_state s' ! i = sm_state s ! i
              \<and> reward_recorder s' ! i = reward_recorder s ! i
              \<and> obj_chosen s' ! i = obj_chosen s ! i
              \<and> (\<forall>x \<in> set (emitted s s'). i \<notin> effect_worlds x))"
proof -
  have loop: "record_loop c jr [0..<length (reward_buf s)] s = (None, s')"
    using assms(1) by (simp add: record_reward_def)
  have mem: "i \<in> set [0..<length (reward_buf s)]" using assms(2) by simp
  from record_loop_at [OF loop mem] obtain s1 s2
    where f1: "world_frame i s s1" and w: "record_world c jr i s1 = (None, s2)"
      and f2: "world_frame i s2 s'"
    by auto
  have eq1: "reward_recorder s1 ! i = reward_recorder s ! i" "obj_chosen s1 ! i = obj_chosen s ! i"
    "sm_state s1 ! i = sm_state s ! i" "reward_buf s1 = reward_buf s"
    "epi_step_count s1 = epi_step_count s"
    using f1 by (simp_all add: world_frame_def)
  have eq2: "reward_recorder s' ! i = reward_recorder s2 ! i" "obj_chosen s' ! i = obj_chosen s2 ! i"
    "sm_state s' ! i = sm_state s2 ! i"
    using f2 by (simp_all add: world_frame_def)
  show ?thesis
  proof (cases "reward_buf s ! i \<noteq> 0 \<and> jr ! i")
    case True
    then have t1: "reward_buf s1 ! i \<noteq> 0" and t2: "jr ! i" by (simp_all add: eq1)
    from record_world_success [OF t1 t2 w] obtain e st
      where e: "py_index (length (reward_recorder s1 ! i)) (fst (epi_step_count s1 ! i)) = Some e"
        and st: "py_index (length (reward_recorder s1 ! i ! e)) (snd (epi_step_count s1 ! i)) = Some st"
        and cell: "reward_recorder s2 ! i ! e ! st = reward_recorder s1 ! i ! e ! st + reward_buf s1 ! i"
        and eff: "effects s2 = effects s1 @
                [WriteRootState (obj_chosen s1 ! i) i,
                 PrintSuccess i (fst (epi_step_count s1 ! i)) (snd (epi_step_count s1 ! i))
                   (sum_list (reward_recorder s2 ! i ! e))]"
        and oc: "obj_chosen s2 ! i = - 1"
        and sm: "sm_state s2 ! i = STATE_MACHINE c ''init''"
      by blast
    from world_frame_emitted [OF f1 eff f2] obtain a d
      where em: "emitted s s' = a @ [WriteRootState (obj_chosen s1 ! i) i,
                 PrintSuccess i (fst (epi_step_count s1 ! i)) (snd (epi_step_count s1 ! i))
                   (sum_list (reward_recorder s2 ! i ! e))] @ d"
      by blast
    have "py_index (length (reward_recorder s ! i)) (fst (epi_step_count s ! i)) = Some e
        \<and> py_index (length (reward_recorder s ! i ! e)) (snd (epi_step_count s ! i)) = Some st
        \<and> reward_recorder s' ! i ! e ! st = reward_recorder s ! i ! e ! st + reward_buf s ! i
        \<and> PrintSuccess i (fst (epi_step_count s ! i)) (snd (epi_step_count s ! i))
             (sum_list (reward_recorder s' ! i ! e)) \<in> set (emitted s s')
        \<and> WriteRootState (obj_chosen s ! i) i \<in> set (emitted s s')
        \<and> obj_chosen s' ! i = - 1
        \<and> sm_state s' ! i = STATE_MACHINE c ''init''"
      using e st cell oc sm by (simp add: em eq1 eq2)
    with True show ?thesis by blast
  next
    case False
    then have "\<not> (reward_buf s1 ! i \<noteq> 0 \<and> jr ! i)" by (simp add: eq1)
    from record_world_skip [OF this w] have s2: "s2 = s1" .
    then have "effects s2 = effects s1 @ []" by simp
    from world_frame_emitted [OF f1 this f2] obtain a d
      where "emitted s s' = a @ [] @ d" and "list_all (\<lambda>x. i \<notin> effect_worlds x) a"
        and "list_all (\<lambda>x. i \<notin> effect_worlds x) d"
      by blast
    then have "\<forall>x \<in> set (emitted s s'). i \<notin> effect_worlds x"
      by (auto simp add: list_all_iff)
    with False show ?thesis by (simp add: eq1 eq2 s2)
  qed
qed

theorem record_reward_outcome_witness:
  "fst (record_reward cfg_example [True, True] env_reward_example) = None
   \<and> (0::nat) < length (reward_buf env_reward_example)
   \<and> reward_recorder (snd (record_reward cfg_example [True, True] env_reward_example)) ! 0 ! 0 ! 2
       = 1 / 2
   \<and> obj_chosen (snd (record_reward cfg_example [True, True] env_reward_example)) ! 0 = - 1
   \<and> sm_state (snd (record_reward cfg_example [True, True] env_reward_example)) ! 0
       = STATE_MACHINE cfg_example ''init''
   \<and> WriteRootState 1 0
       \<in> set (emitted env_reward_example
                (snd (record_reward cfg_example [True, True] env_reward_example)))"
proof -
  let ?s = env_reward_example
  let ?s' = "snd (record_reward cfg_example [True, True] env_reward_example)"
  have h1: "record_reward cfg_example [True, True] ?s = (None, ?s')"
    using env_reward_example_run(1) by (metis prod.collapse)
  have h2: "(0::nat) < length (reward_buf ?s)"
    by (simp add: env_reward_example_def)
  have succ: "reward_buf ?s ! 0 \<noteq> 0 \<and> [True, True] ! 0"
    by (simp add: env_reward_example_def)
  have e0: "py_index (length (reward_recorder ?s ! 0)) (fst (epi_step_count ?s ! 0)) = Some 0"
    by (simp add: env_reward_example_def init_def py_index_def)
  have oc: "obj_chosen ?s ! 0 = 1"
    by (simp add: env_reward_example_def)
  have c0: "reward_recorder ?s ! 0 ! 0 ! 2 = 0"
    by (simp add: env_reward_example_def init_def cfg_example_def)
  have st0: "\<And>st. py_index (length (reward_recorder ?s ! 0 ! 0)) (snd (epi_step_count ?s ! 0)) = Some st
               \<Longrightarrow> st = 2"
    by (simp add: env_reward_example_def init_def py_index_def cfg_example_def)
  have rb: "reward_buf ?s ! 0 = 1 / 2"
    by (simp add: env_reward_example_def)
  from record_reward_outcome [OF h1 h2] succ
  obtain e st
    where e: "py_index (length (reward_recorder ?s ! 0)) (fst (epi_step_count ?s ! 0)) = Some e"
      and st: "py_index (length (reward_recorder ?s ! 0 ! e)) (snd (epi_step_count ?s ! 0)) = Some st"
      and cell: "reward_recorder ?s' ! 0 ! e ! st = reward_recorder ?s ! 0 ! e ! st + reward_buf ?s ! 0"
      and w: "WriteRootState (obj_chosen ?s ! 0) 0 \<in> set (emitted ?s ?s')"
      and o: "obj_chosen ?s' ! 0 = - 1"
      and m: "sm_state ?s' ! 0 = STATE_MACHINE cfg_example ''init''"
    by blast
  from e e0 have e': "e = 0" by simp
  from st e' st0 have st': "st = 2" by blast
  from cell have "reward_recorder ?s' ! 0 ! 0 ! 2 = 1 / 2"
    unfolding e' st' c0 rb by simp
  with env_reward_example_run(1) h2 w o m oc show ?thesis by simp
qed

text \<open>
  C6 as stated fails: world 0 succeeds with reward 0.5 and its ledger cell grows by 0.5,
  not by 1; world 1 does not succeed (reward 0) and stays in state 6, INIT being 0.
\<close>

theorem record_reward_counterexample:
  "fst (record_reward cfg_example [True, True] env_reward_example) = None
   \<and> reward_buf env_reward_example = [1 / 2, 0]
   \<and> reward_recorder env_reward_example ! 0 ! 0 ! 2 = 0
   \<and> reward_recorder (snd (record_reward cfg_example [True, True] env_reward_example)) ! 0 ! 0 ! 2
       = 1 / 2
   \<and> sm_state (snd (record_reward cfg_example [True, True] env_reward_example)) ! 1 = 6
   \<and> STATE_MACHINE cfg_example ''init'' = 0"
proof -
  have a: "reward_buf env_reward_example = [1 / 2, 0]"
    by (simp add: env_reward_example_def)
  have b: "reward_recorder env_reward_example ! 0 ! 0 ! 2 = 0"
    by (simp add: env_reward_example_def init_def cfg_example_def)
  have c: "STATE_MACHINE cfg_example ''init'' = 0"
    by (simp add: cfg_example_def sm_example_def)
  show ?thesis
    using a b c by (simp add: env_reward_example_run)
qed

section \<open>The capacity of the ledger\<close>

lemma ledger_shape_nth:
  assumes "ledger_shape c rr" and "i < length rr"
  shows "length (rr ! i) = 100" and "e < 100 \<Longrightarrow> length (rr ! i ! e) = step_total c"
  using assms by (simp_all add: ledger_shape_def list_all_length)

lemma ledger_shape_update:
  assumes "ledger_shape c rr" and "i < length rr" and "e < 100"
  shows "ledger_shape c (rr[i := (rr ! i)[e := (rr ! i ! e)[st := v]]])"
  unfolding ledger_shape_def list_all_length
proof (intro allI impI conjI)
  fix k assume k: "k < length (rr[i := (rr ! i)[e := (rr ! i ! e)[st := v]]])"
  then have k': "k < length rr" by simp
  show "length (rr[i := (rr ! i)[e := (rr ! i ! e)[st := v]]] ! k) = 100"
    using assms(1) k' by (cases "k = i") (simp_all add: ledger_shape_nth)
  fix m assume m: "m < length (rr[i := (rr ! i)[e := (rr ! i ! e)[st := v]]] ! k)"
  have l: "length (rr ! k) = 100" using assms(1) k' by (simp add: ledger_shape_nth)
  have m': "m < 100" using m k' l by (cases "k = i") simp_all
  show "length (rr[i := (rr ! i)[e := (rr ! i ! e)[st := v]]] ! k ! m) = step_total c"
  proof (cases "k = i")
    case True
    then show ?thesis
      using assms k' m' l by (cases "m = e") (simp_all add: ledger_shape_nth)
  next
    case False
    then show ?thesis using assms(1) k' m' by (simp add: ledger_shape_nth)
  qed
qed

lemma wf_env_ledger: "wf_env c s \<Longrightarrow> ledger_shape c (reward_recorder s)"
  by (simp add: wf_env_def ledger_shape_def)

lemma init_ledger_shape: "ledger_shape c (reward_recorder (init c n robot objs))"
  by (simp add: init_def ledger_shape_def list_all_iff)

lemma py_index_nonneg: "0 \<le> k \<Longrightarrow> py_index n k = (if k < int n then Some (nat k) else None)"
  by (simp add: py_index_def)

lemma record_world_ledger_shape:
  assumes "ledger_shape c (reward_recorder s)"
  shows "ledger_shape c (reward_recorder (snd (record_world c jr i s)))"
proof -
  have "\<And>e st v. i < length (reward_recorder s) \<Longrightarrow>
          py_index (length (reward_recorder s ! i)) (fst (epi_step_count s ! i)) = Some e \<Longrightarrow>
          ledger_shape c ((reward_recorder s)[i := (reward_recorder s ! i)
             [e := (reward_recorder s ! i ! e)[st := v]]])"
  proof -
    fix e st v
    assume i: "i < length (reward_recorder s)"
      and e: "py_index (length (reward_recorder s ! i)) (fst (epi_step_count s ! i)) = Some e"
    have "e < length (reward_recorder s ! i)"
      using e by (auto simp add: py_index_def split: if_splits)
    then have "e < 100" using ledger_shape_nth(1) [OF assms i] by simp
    from ledger_shape_update [OF assms i this]
    show "ledger_shape c ((reward_recorder s)[i := (reward_recorder s ! i)
             [e := (reward_recorder s ! i ! e)[st := v]]])" .
  qed
  with assms show ?thesis
    by (auto simp add: record_world_def Let_def split: option.splits)
qed


text \<open>
  C10. The ledger that \<open>__init__\<close> creates holds, for every world, 100 episodes of
  \<open>step_total\<close> steps, and recording keeps that shape. For a world whose success is
  recorded, with counters that are not negative, the ledger write raises IndexError
  exactly when the episode index is not below 100 or the step index is not below
  \<open>step_total\<close>; nothing guards against it, and the state is then left as it was.
\<close>

theorem ledger_write_in_bounds:
  assumes "wf_env c s" and "i < num_envs s" and "reward_buf s ! i \<noteq> 0"
    and "i < length jr" and "jr ! i"
    and "0 \<le> fst (epi_step_count s ! i)" and "0 \<le> snd (epi_step_count s ! i)"
  shows "ledger_shape c (reward_recorder (init c n robot objs))
         \<and> (fst (record_world c jr i s) = Some IndexError \<longleftrightarrow>
              \<not> (fst (epi_step_count s ! i) < 100
                  \<and> snd (epi_step_count s ! i) < int (step_total c)))
         \<and> (fst (record_world c jr i s) = Some IndexError \<longrightarrow> snd (record_world c jr i s) = s)
         \<and> ledger_shape c (reward_recorder (snd (record_world c jr i s)))"
proof -
  have sh: "ledger_shape c (reward_recorder s)" by (rule wf_env_ledger [OF assms(1)])
  have len: "i < length (epi_step_count s)" "i < length (reward_recorder s)"
    "i < length (obj_chosen s)" "i < length (sm_state s)"
    using assms(1,2) by (simp_all add: wf_env_def)
  have l100: "length (reward_recorder s ! i) = 100"
    by (rule ledger_shape_nth(1) [OF sh len(2)])
  have pe: "py_index (length (reward_recorder s ! i)) (fst (epi_step_count s ! i))
              = (if fst (epi_step_count s ! i) < 100 then Some (nat (fst (epi_step_count s ! i)))
                 else None)"
    using assms(6) by (simp add: py_index_nonneg l100)
  have main: "(fst (record_world c jr i s) = Some IndexError \<longleftrightarrow>
              \<not> (fst (epi_step_count s ! i) < 100
                  \<and> snd (epi_step_count s ! i) < int (step_total c)))
         \<and> (fst (record_world c jr i s) = Some IndexError \<longrightarrow> snd (record_world c jr i s) = s)"
  proof (cases "fst (epi_step_count s ! i) < 100")
    case False
    then show ?thesis
      using assms(3,4,5) len by (simp add: record_world_def pe)
  next
    case True
    let ?e = "nat (fst (epi_step_count s ! i))"
    have e: "?e < 100" using True assms(6) by simp
    have lst: "length (reward_recorder s ! i ! ?e) = step_total c"
      by (rule ledger_shape_nth(2) [OF sh len(2) e])
    have ps: "py_index (length (reward_recorder s ! i ! ?e)) (snd (epi_step_count s ! i))
              = (if snd (epi_step_count s ! i) < int (step_total c)
                 then Some (nat (snd (epi_step_count s ! i))) else None)"
      using assms(7) by (simp add: py_index_nonneg lst)
    show ?thesis
      using True assms(3,4,5) len by (simp add: record_world_def pe ps Let_def)
  qed
  from init_ledger_shape [of c n robot objs] main record_world_ledger_shape [OF sh, of jr i]
  show ?thesis by blast
qed

lemma env_reward_example_wf: "wf_env cfg_example env_reward_example"
  by (simp add: wf_env_def env_reward_example_def init_def cfg_example_def list_all_iff)

lemma env_overflow_example_wf: "wf_env cfg_example env_overflow_example"
  by (simp add: wf_env_def env_overflow_example_def env_reward_example_def init_def
      cfg_example_def list_all_iff)

theorem ledger_write_in_bounds_witness:
  "wf_env cfg_example env_reward_example \<and> 0 < num_envs env_reward_example
   \<and> reward_buf env_reward_example ! 0 \<noteq> 0 \<and> 0 < length [True, True] \<and> [True, True] ! 0
   \<and> 0 \<le> fst (epi_step_count env_reward_example ! 0)
   \<and> 0 \<le> snd (epi_step_count env_reward_example ! 0)
   \<and> fst (record_world cfg_example [True, True] 0 env_reward_example) \<noteq> Some IndexError
   \<and> fst (record_world cfg_example [True, True] 0 env_overflow_example) = Some IndexError
   \<and> snd (record_world cfg_example [True, True] 0 env_overflow_example) = env_overflow_example"
proof -
  have a: "0 < num_envs env_reward_example" "reward_buf env_reward_example ! 0 \<noteq> 0"
    "0 < length [True, True]" "[True, True] ! 0"
    "0 \<le> fst (epi_step_count env_reward_example ! 0)"
    "0 \<le> snd (epi_step_count env_reward_example ! 0)"
    by (simp_all add: env_reward_example_def init_def)
  have b: "0 < num_envs env_overflow_example" "reward_buf env_overflow_example ! 0 \<noteq> 0"
    "0 \<le> fst (epi_step_count env_overflow_example ! 0)"
    "0 \<le> snd (epi_step_count env_overflow_example ! 0)"
    by (simp_all add: env_overflow_example_def env_reward_example_def init_def)
  have c1: "fst (epi_step_count env_reward_example ! 0) < 100
            \<and> snd (epi_step_count env_reward_example ! 0) < int (step_total cfg_example)"
    by (simp add: env_reward_example_def cfg_example_def)
  have c2: "\<not> fst (epi_step_count env_overflow_example ! 0) < 100"
    by (simp add: env_overflow_example_def)
  from ledger_write_in_bounds [OF env_reward_example_wf a] c1
  have r1: "fst (record_world cfg_example [True, True] 0 env_reward_example) \<noteq> Some IndexError"
    by blast
  from ledger_write_in_bounds [OF env_overflow_example_wf b(1,2) a(3,4) b(3,4)] c2
  have r2: "fst (record_world cfg_example [True, True] 0 env_overflow_example) = Some IndexError
            \<and> snd (record_world cfg_example [True, True] 0 env_overflow_example) = env_overflow_example"
    by blast
  from env_reward_example_wf a r1 r2 show ?thesis by blast
qed


end
